theory Spec2Isabelle
  imports Main
begin

unbundle bit_operations_syntax

section \<open>JavaScript values and primitives used by the library\<close>

text \<open>
  A JavaScript number, as far as this library produces one: an integer, or \<open>NaN\<close> (what
  \<open>parseInt\<close> returns when it finds no digit). Strings are modelled as \<open>string\<close>;
  the library only builds and inspects ASCII text (hex digits, Base64, header fields).
\<close>

datatype jsnum = NaN | Num int

text \<open>
  Every \<open>throw\<close> of the sources is a value of this type; the comment gives the thrown
  string. \<open>TypeError\<close> is the exception the JavaScript runtime itself raises when a
  property is read from \<open>undefined\<close> or \<open>null\<close>, or a non-function is called.
  The \<open>'invalid argument'\<close> throws of SRP.js guard the dynamic type of an argument
  (BigInteger, array, string); the model is typed, so such a guard can only fail on a
  field of the Client or Server object that was never set (\<open>undefined\<close>).
\<close>

datatype error =
    PrecheckFailed                \<comment> \<open>'precondition fail'\<close>
  | Truncation nat                \<comment> \<open>'attmpted to truncate to ' + byteCount\<close>
  | LengthMismatch                \<comment> \<open>'strings not same length'\<close>
  | FormatError                   \<comment> \<open>'not a valid params string'\<close>
  | MissingParams                 \<comment> \<open>'didn't get everything we needed from server'\<close>
  | IndexError                    \<comment> \<open>'invalid prime index'\<close>
  | IncompleteServerInfo string   \<comment> \<open>'serverInfo needs ' + field\<close>
  | AlreadyLoggedIn string        \<comment> \<open>'Already logged in as ' + user + ', log out first!'\<close>
  | AuthenticationFailed          \<comment> \<open>'Login failed!'\<close>
  | UnknownStatus int             \<comment> \<open>'Unknown/unhandled status code from NIAuth (' + status + ')'\<close>
  | UnknownElement string         \<comment> \<open>'Unknown element type, got ' + tagName\<close>
  | InvalidArgument               \<comment> \<open>'invalid argument'\<close>
  | LookupFailed                  \<comment> \<open>the injected lookup function threw\<close>
  | TypeError                     \<comment> \<open>raised by the runtime, not by a throw statement\<close>

subsection \<open>Number.prototype.toString(16), bitwise operators\<close>

definition hexChar :: "nat \<Rightarrow> char" where
  "hexChar d = ''0123456789abcdef'' ! d"

fun hexDigits :: "nat \<Rightarrow> string" where
  "hexDigits n = (if n < 16 then [hexChar n] else hexDigits (n div 16) @ [hexChar (n mod 16)])"

declare hexDigits.simps [simp del]

definition toString16 :: "jsnum \<Rightarrow> string" where
  "toString16 x =
     (case x of
        NaN \<Rightarrow> ''NaN''
      | Num n \<Rightarrow> (if n < 0 then CHR ''-'' # hexDigits (nat (- n)) else hexDigits (nat n)))"

text \<open>The operands of \<open>&\<close> and \<open>^\<close> are converted with ToInt32: NaN becomes 0, an
  integer wraps into the signed 32-bit range.\<close>

definition toInt32 :: "jsnum \<Rightarrow> int" where
  "toInt32 x =
     (case x of
        NaN \<Rightarrow> 0
      | Num n \<Rightarrow> (let m = n mod 2 ^ 32 in if 2 ^ 31 \<le> m then m - 2 ^ 32 else m))"

definition js_and :: "jsnum \<Rightarrow> jsnum \<Rightarrow> jsnum" where
  "js_and a b = Num (toInt32 a AND toInt32 b)"

definition js_xor :: "jsnum \<Rightarrow> jsnum \<Rightarrow> jsnum" where
  "js_xor a b = Num (toInt32 a XOR toInt32 b)"

subsection \<open>String.prototype.substr, split, indexOf\<close>

definition substr :: "string \<Rightarrow> nat \<Rightarrow> nat \<Rightarrow> string" where
  \<comment> \<open>\<open>s.substr(i, n)\<close> with \<open>0 \<le> i\<close>\<close>
  "substr s i n = take n (drop i s)"

definition substrFrom :: "string \<Rightarrow> nat \<Rightarrow> string" where
  \<comment> \<open>\<open>s.substr(i)\<close> with \<open>0 \<le> i\<close>\<close>
  "substrFrom s i = drop i s"

definition substrLast :: "string \<Rightarrow> nat \<Rightarrow> string" where
  \<comment> \<open>\<open>s.substr(-n)\<close>: the last \<open>n\<close> characters, the whole string when it is shorter\<close>
  "substrLast s n = drop (length s - n) s"

fun splitComma :: "string \<Rightarrow> string list" where
  \<comment> \<open>\<open>s.split(',')\<close>; the empty string splits into one empty segment\<close>
  "splitComma [] = [[]]"
| "splitComma (c # cs) =
     (if c = CHR '','' then [] # splitComma cs
      else (case splitComma cs of [] \<Rightarrow> [[c]] | p # ps \<Rightarrow> (c # p) # ps))"

definition indexOf :: "string \<Rightarrow> char \<Rightarrow> nat option" where
  \<comment> \<open>\<open>s.indexOf(c)\<close>; \<open>None\<close> stands for -1\<close>
  "indexOf s c = (if c \<in> set s then Some (length (takeWhile (\<lambda>d. d \<noteq> c) s)) else None)"

subsection \<open>parseInt\<close>

definition digitValue :: "char \<Rightarrow> nat" where
  \<comment> \<open>the value of a digit in radix up to 36; 36 for a character that is no digit\<close>
  "digitValue c =
     (let k = (of_char c :: nat) in
      if 48 \<le> k \<and> k \<le> 57 then k - 48
      else if 97 \<le> k \<and> k \<le> 122 then k - 87
      else if 65 \<le> k \<and> k \<le> 90 then k - 55
      else 36)"

definition isWhiteSpace :: "char \<Rightarrow> bool" where
  "isWhiteSpace c = ((of_char c :: nat) \<in> {9, 10, 11, 12, 13, 32, 160})"

definition digitsValue :: "nat \<Rightarrow> string \<Rightarrow> nat" where
  "digitsValue radix ds = foldl (\<lambda>acc c. acc * radix + digitValue c) 0 ds"

text \<open>
  \<open>parseInt(s, radix)\<close> for radix 10 and 16: leading white space is skipped, one sign is
  read, for radix 16 a prefix \<open>0x\<close> is skipped, then the longest run of digits is read;
  no digit gives NaN. (A JavaScript number is a double: beyond \<open>2^53\<close> the real
  \<open>parseInt\<close> rounds. The library parses chunks of two and four hex digits and a
  prime-group index, and the model keeps the exact integer.)
\<close>

definition parseInt :: "string \<Rightarrow> nat \<Rightarrow> jsnum" where
  "parseInt s radix =
     (let s1 = dropWhile isWhiteSpace s;
          neg = (s1 \<noteq> [] \<and> hd s1 = CHR ''-'');
          s2 = (if s1 \<noteq> [] \<and> (hd s1 = CHR ''-'' \<or> hd s1 = CHR ''+'') then tl s1 else s1);
          s3 = (if radix = 16 \<and> (take 2 s2 = ''0x'' \<or> take 2 s2 = ''0X'') then drop 2 s2 else s2);
          ds = takeWhile (\<lambda>c. digitValue c < radix) s3
      in if ds = [] then NaN
         else Num ((if neg then - 1 else 1) * int (digitsValue radix ds)))"

section \<open>The arbitrary-precision integers (jsbn's BigInteger)\<close>

text \<open>
  Modelled from the spec: the arbitrary-precision integer type and its arithmetic are
  an external collaborator (the package jsbn), absent from the sources and assumed
  correct. A BigInteger is an \<open>int\<close>; \<open>add\<close>, \<open>subtract\<close>, \<open>multiply\<close> are
  \<open>+\<close>, \<open>-\<close>, \<open>*\<close>; \<open>x.mod(m)\<close> is the non-negative remainder \<open>x mod m\<close> for
  \<open>0 < m\<close>; \<open>x.compareTo(BigInteger.ZERO) == 0\<close> is \<open>x = 0\<close>.
\<close>

text \<open>
  \<open>g.modPow(e, m)\<close> is \<open>g^e mod m\<close> for an exponent \<open>0 < e\<close> and a modulus \<open>1 < m\<close>.
  For the exponent 0 jsbn answers before it looks at the modulus
  (\<^verbatim>\<open>var i = e.bitLength(), k, r = nbv(1), z; if (i <= 0) return r;\<close>): the result
  is 1, also for the modulus 1, where \<open>g^0 mod 1\<close> is 0. A negative exponent is outside
  the model: jsbn runs over the digits of its two's-complement representation, whose
  width depends on the platform, and the result is not a power of \<open>g\<close>. Every
  statement below that reads \<open>modPow\<close> as a power assumes \<open>0 \<le> e\<close> and \<open>1 < m\<close>.
\<close>

definition modPow :: "int \<Rightarrow> int \<Rightarrow> int \<Rightarrow> int" where
  "modPow g e m = (if e = 0 then 1 else g ^ nat e mod m)"

text \<open>
  \<open>toByteArray\<close> gives the shortest big-endian two's-complement representation, as
  signed bytes (the repository's SHA1 test notes that it "returns int8 values, not uint8
  values"): 255 is \<open>[0, -1]\<close>, 127 is \<open>[127]\<close>, 0 is \<open>[0]\<close>.
\<close>

definition int8 :: "int \<Rightarrow> int" where
  "int8 d = (if 128 \<le> d then d - 256 else d)"

function toByteArray :: "int \<Rightarrow> jsnum list" where
  "toByteArray n =
     (if - 128 \<le> n \<and> n < 128 then [Num n]
      else toByteArray (n div 256) @ [Num (int8 (n mod 256))])"
  by pat_completeness auto
termination
  by (relation "measure (\<lambda>n. nat \<bar>n\<bar>)") auto

declare toByteArray.simps [simp del]

text \<open>
  \<open>new BigInteger(s, 16)\<close> on a string of hex digits, which is what the digest function,
  \<open>byteArrayToHashString\<close> and \<open>b64tohex\<close> produce: the non-negative integer the digits
  denote (the empty string gives 0). A character that is no hex digit is skipped.
\<close>

definition bigIntegerFromHex :: "string \<Rightarrow> int" where
  "bigIntegerFromHex s = int (digitsValue 16 (filter (\<lambda>c. digitValue c < 16) s))"

section \<open>Utils.js\<close>

text \<open>
  \<^verbatim>\<open>for (var i = 0; i < str.length; i += 2) ar.push(parseInt(str.substr(i, 2), 16));\<close>
\<close>

function hashStringToByteArray_loop :: "string \<Rightarrow> nat \<Rightarrow> jsnum list \<Rightarrow> jsnum list" where
  "hashStringToByteArray_loop str i ar =
     (if i < length str
      then hashStringToByteArray_loop str (i + 2) (ar @ [parseInt (substr str i 2) 16])
      else ar)"
  by pat_completeness auto
termination
  by (relation "measure (\<lambda>(str, i, ar). length str - i)") auto

declare hashStringToByteArray_loop.simps [simp del]

definition hashStringToByteArray :: "string \<Rightarrow> jsnum list" where
  "hashStringToByteArray str = hashStringToByteArray_loop str 0 []"

text \<open>
  \<^verbatim>\<open>hs += ('00' + (ar[i] & 0xFF).toString(16)).substr(-2);\<close>
\<close>

definition byteArrayToHashString :: "jsnum list \<Rightarrow> string" where
  "byteArrayToHashString ar =
     concat (map (\<lambda>b. substrLast (''00'' @ toString16 (js_and b (Num 255))) 2) ar)"

definition bigIntegerToBytes :: "int \<Rightarrow> nat \<Rightarrow> error + jsnum list" where
  "bigIntegerToBytes bi byteCount =
     (let bytes = toByteArray bi in
      if length bytes = byteCount then Inr bytes
      else if length bytes < byteCount
      then Inr (replicate (byteCount - length bytes) (Num 0) @ bytes)
      else (let leaders = take (length bytes - byteCount) bytes in
            if list_ex (\<lambda>b. b \<noteq> Num 0) leaders then Inl (Truncation byteCount)
            else Inr (drop (length bytes - byteCount) bytes)))"

text \<open>
  \<^verbatim>\<open>for (var i = 0; i < str.length; ++i) ar.push(String.fromCharCode(i));\<close>
  \<open>String.fromCharCode(i)\<close> is the one-character string whose UTF-16 code unit is
  \<open>i mod 2^16\<close>; such a string is written here as the list of its code units.
\<close>

definition fromCharCode :: "nat \<Rightarrow> nat list" where
  "fromCharCode i = [i mod 65536]"

function byteStringToByteArray_loop :: "string \<Rightarrow> nat \<Rightarrow> nat list list \<Rightarrow> nat list list" where
  "byteStringToByteArray_loop str i ar =
     (if i < length str
      then byteStringToByteArray_loop str (i + 1) (ar @ [fromCharCode i])
      else ar)"
  by pat_completeness auto
termination
  by (relation "measure (\<lambda>(str, i, ar). length str - i)") auto

declare byteStringToByteArray_loop.simps [simp del]

definition byteStringToByteArray :: "string \<Rightarrow> nat list list" where
  "byteStringToByteArray str = byteStringToByteArray_loop str 0 []"

text \<open>
  \<^verbatim>\<open>
  if (a.length != b.length) throw 'strings not same length';
  for (var i = 0; i < a.length; i+=4) {
     var ac = parseInt(a.substr(i, 4), 16);
     var bc = parseInt(b.substr(i, 4), 16);
     res += ('0000' + (ac ^ bc).toString(16)).substr(-4);
  }\<close>
\<close>

function xorHashStrings_loop :: "string \<Rightarrow> string \<Rightarrow> nat \<Rightarrow> string \<Rightarrow> string" where
  "xorHashStrings_loop a b i res =
     (if i < length a
      then xorHashStrings_loop a b (i + 4)
             (res @ substrLast (''0000'' @
                toString16 (js_xor (parseInt (substr a i 4) 16) (parseInt (substr b i 4) 16))) 4)
      else res)"
  by pat_completeness auto
termination
  by (relation "measure (\<lambda>(a, b, i, res). length a - i)") auto

declare xorHashStrings_loop.simps [simp del]

definition xorHashStrings :: "string \<Rightarrow> string \<Rightarrow> error + string" where
  "xorHashStrings a b =
     (if length a \<noteq> length b then Inl LengthMismatch
      else Inr (xorHashStrings_loop a b 0 []))"

definition makeUrlBase64 :: "string \<Rightarrow> string" where
  "makeUrlBase64 regularBase64Str =
     map (\<lambda>c. if c = CHR ''+'' then CHR ''-'' else if c = CHR ''/'' then CHR ''_'' else c)
       regularBase64Str"


definition bytesToBigInteger :: "jsnum list \<Rightarrow> int" where
  \<comment> \<open>\<open>new BigInteger(Utils.byteArrayToHashString(bytes), 16)\<close>, as Server.startLogin
     reads the stored N, g and v\<close>
  "bytesToBigInteger bs = bigIntegerFromHex (byteArrayToHashString bs)"

section \<open>Base64.js\<close>

text \<open>
  Modelled from the spec: general Base64 encoding and decoding is an external capability
  (Base64.js hands the work to the runtime's Buffer). \<open>decode\<close> reads the characters
  of the Base64 alphabet up to the first padding character, four sextets to three bytes;
  \<open>encode\<close> is the standard padded encoding of the bytes, each taken modulo 256.
\<close>

definition b64Value :: "char \<Rightarrow> nat" where
  \<comment> \<open>the sextet a character stands for; 64 for a character outside the alphabet\<close>
  "b64Value c =
     (let k = (of_char c :: nat) in
      if 65 \<le> k \<and> k \<le> 90 then k - 65
      else if 97 \<le> k \<and> k \<le> 122 then k - 71
      else if 48 \<le> k \<and> k \<le> 57 then k + 4
      else if k = 43 \<or> k = 45 then 62
      else if k = 47 \<or> k = 95 then 63
      else 64)"

fun b64Groups :: "nat list \<Rightarrow> nat list" where
  "b64Groups (a # b # c # d # rest) =
     (a * 4 + b div 16) # ((b mod 16) * 16 + c div 4) # ((c mod 4) * 64 + d) # b64Groups rest"
| "b64Groups [a, b, c] = [a * 4 + b div 16, (b mod 16) * 16 + c div 4]"
| "b64Groups [a, b] = [a * 4 + b div 16]"
| "b64Groups [a] = []"
| "b64Groups [] = []"

definition Base64_decode :: "string \<Rightarrow> jsnum list" where
  "Base64_decode str =
     map (\<lambda>v. Num (int v))
       (b64Groups (filter (\<lambda>v. v < 64) (map b64Value (takeWhile (\<lambda>c. c \<noteq> CHR ''='') str))))"

definition b64Char :: "nat \<Rightarrow> char" where
  "b64Char v = ''ABCDEFGHIJKLMNOPQRSTUVWXYZabcdefghijklmnopqrstuvwxyz0123456789+/'' ! v"

fun b64Triples :: "nat list \<Rightarrow> string" where
  "b64Triples (a # b # c # rest) =
     b64Char (a div 4) # b64Char ((a mod 4) * 16 + b div 16) #
     b64Char ((b mod 16) * 4 + c div 64) # b64Char (c mod 64) # b64Triples rest"
| "b64Triples [a, b] =
     [b64Char (a div 4), b64Char ((a mod 4) * 16 + b div 16), b64Char ((b mod 16) * 4), CHR ''='']"
| "b64Triples [a] = [b64Char (a div 4), b64Char ((a mod 4) * 16), CHR ''='', CHR ''='']"
| "b64Triples [] = []"

definition Base64_encode :: "jsnum list \<Rightarrow> string" where
  "Base64_encode arr = b64Triples (map (\<lambda>b. nat (toInt32 b mod 256)) arr)"

section \<open>Utils.js, continued: the Base64 helpers\<close>

text \<open>
  \<^verbatim>\<open>decodedhex += ('00' + decoded[i].toString(16)).substr(-2);\<close>
\<close>

definition b64tohex :: "string \<Rightarrow> string" where
  "b64tohex b64str =
     concat (map (\<lambda>d. substrLast (''00'' @ toString16 d) 2) (Base64_decode b64str))"

definition hexStringToBase64 :: "string \<Rightarrow> string" where
  "hexStringToBase64 str = Base64_encode (hashStringToByteArray str)"

definition bigIntToBase64 :: "int \<Rightarrow> nat \<Rightarrow> error + string" where
  "bigIntToBase64 ba len =
     (case bigIntegerToBytes ba len of
        Inl e \<Rightarrow> Inl e
      | Inr bytes \<Rightarrow> Inr (Base64_encode (map (\<lambda>b. js_and b (Num 255)) bytes)))"

text \<open>
  \<open>splitParamsString\<close> (the same text in Utils.js and in index.js). The result object is
  a map from own property names to values. An assignment to the name \<open>__proto__\<close> of a
  string value creates no own property.
\<close>

fun splitParamsString_loop :: "string list \<Rightarrow> (string \<rightharpoonup> string) \<Rightarrow> error + (string \<rightharpoonup> string)" where
  "splitParamsString_loop [] ret = Inr ret"
| "splitParamsString_loop (p # params) ret =
     (case indexOf p (CHR ''='') of
        None \<Rightarrow> Inl FormatError
      | Some equals \<Rightarrow>
          splitParamsString_loop params
            (if substr p 0 equals = ''__proto__'' then ret
             else ret(substr p 0 equals \<mapsto> substrFrom p (equals + 1))))"

definition splitParamsString :: "string \<Rightarrow> error + (string \<rightharpoonup> string)" where
  "splitParamsString str = splitParamsString_loop (splitComma str) Map.empty"

section \<open>SRP.js: the mathematical operations\<close>

text \<open>
  SHA1.js is not among the sources. The digest function is a parameter \<open>SHA1\<close> of every
  operation that hashes: it takes an array of bytes or a string and returns the digest
  as a string of 40 hex digits.
\<close>

datatype sha_input = Bytes "jsnum list" | Str string

definition MGF1SHA1 :: "(sha_input \<Rightarrow> string) \<Rightarrow> jsnum list \<Rightarrow> string" where
  "MGF1SHA1 SHA1 byteArray =
     SHA1 (Bytes (byteArray @ [Num 0, Num 0, Num 0, Num 0])) @
     SHA1 (Bytes (byteArray @ [Num 0, Num 0, Num 0, Num 1]))"

definition SRP_A :: "int \<Rightarrow> int \<Rightarrow> int \<Rightarrow> int" where
  "SRP_A N g a = modPow g a N"

definition SRP_k :: "(sha_input \<Rightarrow> string) \<Rightarrow> int \<Rightarrow> int \<Rightarrow> error + int" where
  "SRP_k SHA1 N g =
     (case bigIntegerToBytes N 128 of
        Inl e \<Rightarrow> Inl e
      | Inr Nb \<Rightarrow>
          (case bigIntegerToBytes g 128 of
             Inl e \<Rightarrow> Inl e
           | Inr gb \<Rightarrow> Inr (bigIntegerFromHex (SHA1 (Bytes (Nb @ gb))))))"

definition SRP_B :: "(sha_input \<Rightarrow> string) \<Rightarrow> int \<Rightarrow> int \<Rightarrow> int \<Rightarrow> int \<Rightarrow> error + int" where
  "SRP_B SHA1 N g v b =
     (case SRP_k SHA1 N g of
        Inl e \<Rightarrow> Inl e
      | Inr k \<Rightarrow> Inr ((k * v + modPow g b N) mod N))"

definition SRP_u :: "(sha_input \<Rightarrow> string) \<Rightarrow> int \<Rightarrow> int \<Rightarrow> error + int" where
  "SRP_u SHA1 A B =
     (case bigIntegerToBytes A 128 of
        Inl e \<Rightarrow> Inl e
      | Inr Ab \<Rightarrow>
          (case bigIntegerToBytes B 128 of
             Inl e \<Rightarrow> Inl e
           | Inr Bb \<Rightarrow> Inr (bigIntegerFromHex (SHA1 (Bytes (Ab @ Bb))))))"

definition SRP_x :: "(sha_input \<Rightarrow> string) \<Rightarrow> jsnum list \<Rightarrow> string \<Rightarrow> string \<Rightarrow> int" where
  "SRP_x SHA1 salt username password =
     (let concat1 = username @ '':'' @ password;
          concat2 = salt @ hashStringToByteArray (SHA1 (Str concat1))
      in bigIntegerFromHex (SHA1 (Bytes concat2)))"

definition SRP_Sc :: "int \<Rightarrow> int \<Rightarrow> int \<Rightarrow> int \<Rightarrow> int \<Rightarrow> int \<Rightarrow> int \<Rightarrow> int" where
  \<comment> \<open>\<open>(B.add(k.multiply(N.subtract(g.modPow(x, N))).mod(N))).modPow(a.add(u.multiply(x)), N)\<close>\<close>
  "SRP_Sc N g B k x a u = modPow (B + (k * (N - modPow g x N)) mod N) (a + u * x) N"

definition SRP_Ss :: "int \<Rightarrow> int \<Rightarrow> int \<Rightarrow> int \<Rightarrow> int \<Rightarrow> int" where
  \<comment> \<open>\<open>(A.multiply(v.modPow(u, N))).modPow(b, N)\<close>\<close>
  "SRP_Ss N A v u b = modPow (A * modPow v u N) b N"

definition SRP_K :: "(sha_input \<Rightarrow> string) \<Rightarrow> int \<Rightarrow> error + jsnum list" where
  "SRP_K SHA1 S =
     (case bigIntegerToBytes S 128 of
        Inl e \<Rightarrow> Inl e
      | Inr Sb \<Rightarrow> Inr (hashStringToByteArray (MGF1SHA1 SHA1 Sb)))"

definition SRP_Mc ::
  "(sha_input \<Rightarrow> string) \<Rightarrow> int \<Rightarrow> int \<Rightarrow> string \<Rightarrow> jsnum list \<Rightarrow> int \<Rightarrow> int \<Rightarrow> jsnum list \<Rightarrow> error + string" where
  "SRP_Mc SHA1 N g username salt A B K =
     (case bigIntegerToBytes N 128 of
        Inl e \<Rightarrow> Inl e
      | Inr Nb \<Rightarrow>
          (case bigIntegerToBytes g 1 of
             Inl e \<Rightarrow> Inl e
           | Inr gb \<Rightarrow>
               (case xorHashStrings (SHA1 (Bytes Nb)) (SHA1 (Bytes gb)) of
                  Inl e \<Rightarrow> Inl e
                | Inr xored \<Rightarrow>
                    (let ret = hashStringToByteArray xored;
                         shau = hashStringToByteArray (SHA1 (Str username))
                     in case bigIntegerToBytes A 128 of
                          Inl e \<Rightarrow> Inl e
                        | Inr Ab \<Rightarrow>
                            (case bigIntegerToBytes B 128 of
                               Inl e \<Rightarrow> Inl e
                             | Inr Bb \<Rightarrow>
                                 Inr (SHA1 (Bytes (ret @ shau @ salt @ Ab @ Bb @ K))))))))"

definition SRP_Ms :: "(sha_input \<Rightarrow> string) \<Rightarrow> int \<Rightarrow> string \<Rightarrow> jsnum list \<Rightarrow> error + string" where
  "SRP_Ms SHA1 A M K =
     (let Mb = hashStringToByteArray M
      in case bigIntegerToBytes A 128 of
           Inl e \<Rightarrow> Inl e
         | Inr Ab \<Rightarrow> Inr (SHA1 (Bytes (Ab @ Mb @ K))))"

definition SRP_v :: "int \<Rightarrow> int \<Rightarrow> int \<Rightarrow> int" where
  "SRP_v N g x = modPow g x N"

section \<open>SRP.js: the Client and the Server\<close>

text \<open>
  The objects of the sources become records. A field that has not been assigned yet is
  \<open>undefined\<close> in JavaScript and \<open>None\<close> here. Several objects use the same property
  names, so the fields carry a prefix: \<open>si_\<close> for the server-info object that
  \<open>decodeServerParamsString\<close> and \<open>Server.startLogin\<close> return, \<open>c_\<close> for the Client,
  \<open>s_\<close> for the Server, \<open>e_\<close> for an entry of the verifier lookup.
\<close>

record serverInfo =
  si_modulus :: "int option"
  si_generator :: "int option"
  si_salt :: "jsnum list option"
  si_serverPublicKey :: "int option"
  si_loginToken :: "string option"

record identity =
  i_username :: "string option"
  i_password :: "string option"

record client =
  c_username :: "string option"
  c_password :: "string option"
  c_modulus :: "int option"
  c_generator :: "int option"
  c_salt :: "jsnum list option"
  c_serverPublicKey :: "int option"
  c_sharedKey :: "jsnum list option"

record clientParams =
  clientPublicKey :: int
  clientProof :: string

record entry =
  e_n :: "jsnum list"
  e_g :: "jsnum list"
  e_v :: "jsnum list"
  e_s :: "jsnum list"

record server =
  s_lookupFunc :: "string \<Rightarrow> entry option"
  s_modulus :: "int option"
  s_generator :: "int option"
  s_salt :: "jsnum list option"
  s_serverPrivateKey :: "int option"
  s_serverPublicKey :: "int option"
  s_verifier :: "int option"
  s_sharedKey :: "jsnum list option"

definition newClient :: client where
  "newClient = \<lparr>c_username = None, c_password = None, c_modulus = None, c_generator = None,
     c_salt = None, c_serverPublicKey = None, c_sharedKey = None\<rparr>"

definition newServer :: "(string \<Rightarrow> entry option) \<Rightarrow> server" where
  "newServer lookupFunc = \<lparr>s_lookupFunc = lookupFunc, s_modulus = None, s_generator = None,
     s_salt = None, s_serverPrivateKey = None, s_serverPublicKey = None, s_verifier = None,
     s_sharedKey = None\<rparr>"

definition orEmpty :: "string option \<Rightarrow> string" where
  \<comment> \<open>\<open>username || ''\<close>\<close>
  "orEmpty s = (case s of None \<Rightarrow> [] | Some t \<Rightarrow> t)"

definition setIdentity :: "client \<Rightarrow> identity \<Rightarrow> client" where
  "setIdentity this ident =
     this\<lparr>c_username := i_username ident, c_password := i_password ident\<rparr>"

definition setServerInfo :: "client \<Rightarrow> serverInfo \<Rightarrow> error + client" where
  "setServerInfo this info =
     (if si_modulus info = None then Inl (IncompleteServerInfo ''modulus'')
      else if si_generator info = None then Inl (IncompleteServerInfo ''generator'')
      else if si_salt info = None then Inl (IncompleteServerInfo ''salt'')
      else if si_serverPublicKey info = None then Inl (IncompleteServerInfo ''serverPublicKey'')
      else Inr (this\<lparr>c_modulus := si_modulus info, c_generator := si_generator info,
                     c_salt := si_salt info, c_serverPublicKey := si_serverPublicKey info\<rparr>))"

text \<open>
  \<open>generatePublicKeyAndProof\<close>. The client's random number \<open>SRP.a()\<close> (512 random bits)
  is the argument \<open>a\<close>. The statements of the source, in order: the check of
  \<open>B mod N\<close>; \<open>a\<close>, \<open>A\<close>, \<open>u\<close> and its check; \<open>k\<close> and its check; \<open>x\<close>, \<open>S\<close>,
  \<open>K\<close>, \<open>M\<close>; the assignment of \<open>this.sharedKey\<close>; the returned object.
\<close>

definition generatePublicKeyAndProof ::
  "(sha_input \<Rightarrow> string) \<Rightarrow> int \<Rightarrow> client \<Rightarrow> error + (clientParams \<times> client)" where
  "generatePublicKeyAndProof SHA1 a this =
     (case c_serverPublicKey this of
        None \<Rightarrow> Inl TypeError
      | Some B \<Rightarrow>
     (case c_modulus this of
        None \<Rightarrow> Inl TypeError
      | Some N \<Rightarrow>
     if B mod N = 0 then Inl PrecheckFailed
     else
     (case c_generator this of
        None \<Rightarrow> Inl InvalidArgument
      | Some g \<Rightarrow>
     (let A = SRP_A N g a in
     (case SRP_u SHA1 A B of
        Inl e \<Rightarrow> Inl e
      | Inr u \<Rightarrow>
     if u = 0 then Inl PrecheckFailed
     else
     (case SRP_k SHA1 N g of
        Inl e \<Rightarrow> Inl e
      | Inr k \<Rightarrow>
     if k = 0 then Inl PrecheckFailed
     else
     (case c_salt this of
        None \<Rightarrow> Inl InvalidArgument
      | Some s \<Rightarrow>
     (let x = SRP_x SHA1 s (orEmpty (c_username this)) (orEmpty (c_password this));
          S = SRP_Sc N g B k x a u
      in
     (case SRP_K SHA1 S of
        Inl e \<Rightarrow> Inl e
      | Inr K \<Rightarrow>
     (case SRP_Mc SHA1 N g (orEmpty (c_username this)) s A B K of
        Inl e \<Rightarrow> Inl e
      | Inr M \<Rightarrow>
          Inr (\<lparr>clientPublicKey = A, clientProof = M\<rparr>,
               this\<lparr>c_sharedKey := Some K\<rparr>)))))))))))"

text \<open>\<open>Server.startLogin\<close>; the server's random number \<open>SRP.b()\<close> is the argument \<open>b\<close>.\<close>

definition startLogin ::
  "(sha_input \<Rightarrow> string) \<Rightarrow> int \<Rightarrow> server \<Rightarrow> string \<Rightarrow> error + (serverInfo \<times> server)" where
  "startLogin SHA1 b this username =
     (case s_lookupFunc this username of
        None \<Rightarrow> Inl LookupFailed
      | Some ent \<Rightarrow>
          (let N = bytesToBigInteger (e_n ent);
               g = bytesToBigInteger (e_g ent);
               v = bytesToBigInteger (e_v ent);
               s = e_s ent
           in case SRP_B SHA1 N g v b of
                Inl e \<Rightarrow> Inl e
              | Inr B \<Rightarrow>
                  Inr (\<lparr>si_modulus = Some N, si_generator = Some g, si_salt = Some s,
                        si_serverPublicKey = Some B, si_loginToken = None\<rparr>,
                       this\<lparr>s_modulus := Some N, s_generator := Some g, s_salt := Some s,
                            s_serverPrivateKey := Some b, s_serverPublicKey := Some B,
                            s_verifier := Some v\<rparr>)))"

definition finishLogin ::
  "(sha_input \<Rightarrow> string) \<Rightarrow> server \<Rightarrow> clientParams \<Rightarrow> error + (string \<times> server)" where
  "finishLogin SHA1 this params =
     (let A = clientPublicKey params; Mc = clientProof params in
     (case s_serverPublicKey this of
        None \<Rightarrow> Inl InvalidArgument
      | Some B \<Rightarrow>
     (case SRP_u SHA1 A B of
        Inl e \<Rightarrow> Inl e
      | Inr u \<Rightarrow>
     if u = 0 then Inl PrecheckFailed
     else
     (case (s_modulus this, s_verifier this, s_serverPrivateKey this) of
        (Some N, Some v, Some b) \<Rightarrow>
          (let S = SRP_Ss N A v u b in
          (case SRP_K SHA1 S of
             Inl e \<Rightarrow> Inl e
           | Inr K \<Rightarrow>
          (case SRP_Ms SHA1 A Mc K of
             Inl e \<Rightarrow> Inl e
           | Inr M \<Rightarrow> Inr (M, this\<lparr>s_sharedKey := Some K\<rparr>))))
      | _ \<Rightarrow> Inl InvalidArgument))))"

section \<open>index.js\<close>

subsection \<open>The prime groups\<close>

record primeGroup =
  prime_n :: int
  prime_g :: int

definition primes_base64 :: "(string \<times> string) list" where
  "primes_base64 =
    [
     (''ieJUvpnjDnS8CjQLseVMV6+bLPH2bNQLFVj1nVgSrCdErkLGUGhosubcgk6I7XoqM417RFquVMZvqgXMwggvoJyvy003qXK1bukOLlW1cRW6KLCzRBljPsMG6WeNbKqAatVX1MDHtc/d35B4q2ZJ/UXDzFCE2H/MbbJH7yylr2c='',
      ''Cw==''),
     (''1XFmKuymyyba31KcEoWXHJco2eqggRxU9/ojMPPAkMaMRGw9WxIgEpfZGsxBOlY/ZciBaFWhbZd6gYK3AEYYEiW1N+noFDjBQyonPk3ZguElv9DgB8bv/bw9+U9o8DK1ScjJkrejEvoP2r9Bn6nANPd52l05digkV68v26fzb0c='',
      ''EQ==''),
     (''iJWQ/xNLgaQM8A3XgQ4jmr4yOw4EQ8pcjQ2pJENouY9KfM5kjOGJdiOLnVYZqzDM6bk7wIVCBoO883dnWo4iXVvjsP1EPZ8fs9D2/u1bXtfcq7+ZWgvWGAmaiv9k2SAU8tq4W4ftseMg+CD1qtpGXylIxjWiR4GteZdgbFAS8Mc='',
      ''BQ==''),
     (''5axg064+LI3qRPuYNbgpjlEqoFLpA6VMdJfHs4kJGo74Cl2o4E5JXwkceD26WxT6PzwhHZeqpDbJOgFHZ32OqLibrkDrLnL2pw3GDmoQ6lIPOLgUJjCmkrN35S+dXsFxMzXOLsZwz8JwojmjF+DwnRKCv+Uf49V378xvX7pg4hc='',
      ''BQ==''),
     (''oOFpUEn0CdvWkCF3heD/etjalOiuis53GgbgIaNbh6JTKiFgs5qN1PuKXBIGhtQ9tmxj+JiZAUMzV5AylidbB1YN/l1DMq/7YZoD1nySkDwF0YS3aJMt+Q4S5PzHuoDazCI//ZzCL8nDG565Aunbgx+kQgr37dsYSdDY8rdOOVc='',
      ''BQ=='')
    ]"

definition primes :: "primeGroup list" where
  "primes =
     map (\<lambda>(n, g). \<lparr>prime_n = bigIntegerFromHex (b64tohex n),
                     prime_g = bigIntegerFromHex (b64tohex g)\<rparr>) primes_base64"


subsection \<open>Decoding the challenge header\<close>

definition emptyObject :: serverInfo where
  \<comment> \<open>the object \<open>{}\<close> that \<open>decodeServerParamsString\<close> returns for a missing header\<close>
  "emptyObject = \<lparr>si_modulus = None, si_generator = None, si_salt = None,
     si_serverPublicKey = None, si_loginToken = None\<rparr>"

definition primesAt :: "jsnum \<Rightarrow> primeGroup option" where
  \<comment> \<open>\<open>primes[i]\<close>: \<open>undefined\<close> (here \<open>None\<close>) unless \<open>i\<close> is an index of the array\<close>
  "primesAt i =
     (case i of
        NaN \<Rightarrow> None
      | Num n \<Rightarrow> if 0 \<le> n \<and> n < int (length primes) then Some (primes ! nat n) else None)"

definition js_greater :: "jsnum \<Rightarrow> int \<Rightarrow> bool" where
  \<comment> \<open>\<open>x > n\<close>; every comparison with NaN is false\<close>
  "js_greater x n = (case x of NaN \<Rightarrow> False | Num m \<Rightarrow> n < m)"

text \<open>
  The header is \<open>response.headers.get('X-NI-AUTH-PARAMS')\<close>: \<open>None\<close> when the response
  has no such header. \<open>params.hasOwnProperty\<close> is the inherited method unless the header
  itself has a field of that name, in which case the call fails in the runtime.
\<close>

definition decodeServerParamsString :: "string option \<Rightarrow> error + serverInfo" where
  "decodeServerParamsString str =
     (case str of
        None \<Rightarrow> Inr emptyObject
      | Some srpParams \<Rightarrow>
     if srpParams = [] then Inr emptyObject
     else
     (case splitParamsString srpParams of
        Inl e \<Rightarrow> Inl e
      | Inr params \<Rightarrow>
     if params ''hasOwnProperty'' \<noteq> None then Inl TypeError
     else
     (case (params ''N'', params ''s'', params ''B'', params ''ss'') of
        (Some pN, Some ps, Some pB, Some pss) \<Rightarrow>
          (let N = parseInt pN 10;
               s = Base64_decode ps;
               B = bigIntegerFromHex (b64tohex pB)
           in if js_greater N (int (length primes)) then Inl IndexError
              else
              (case primesAt N of
                 None \<Rightarrow> Inl TypeError
               | Some p \<Rightarrow>
                   Inr \<lparr>si_modulus = Some (prime_n p), si_generator = Some (prime_g p),
                        si_salt = Some s, si_serverPublicKey = Some B,
                        si_loginToken = Some pss\<rparr>))
      | _ \<Rightarrow> Inl MissingParams)))"

subsection \<open>Permissions\<close>

text \<open>
  The XML parser is external: \<open>parseXML\<close> is a parameter of \<open>login\<close> that gives the
  document element. A node has its tag name, its text content and its children.
\<close>

datatype xmlNode = XmlNode (tagName: string) (textContent: string) (childNodes: "xmlNode list")

record permission =
  p_name :: string
  p_builtin :: bool
  p_id :: jsnum

definition parseIntAuto :: "string \<Rightarrow> jsnum" where
  \<comment> \<open>\<open>parseInt(s)\<close> without a radix: 16 after a prefix \<open>0x\<close>, else 10\<close>
  "parseIntAuto s =
     (let s1 = dropWhile isWhiteSpace s;
          s2 = (if s1 \<noteq> [] \<and> (hd s1 = CHR ''-'' \<or> hd s1 = CHR ''+'') then tl s1 else s1)
      in if take 2 s2 = ''0x'' \<or> take 2 s2 = ''0X'' then parseInt s 16 else parseInt s 10)"

fun Permission_loop :: "xmlNode list \<Rightarrow> permission \<Rightarrow> permission" where
  "Permission_loop [] this = this"
| "Permission_loop (cnode # rest) this =
     Permission_loop rest
       (if tagName cnode = ''Name'' then this\<lparr>p_name := textContent cnode\<rparr>
        else if tagName cnode = ''BuiltIn'' then this\<lparr>p_builtin := (textContent cnode \<noteq> [])\<rparr>
        else if tagName cnode = ''ID'' then this\<lparr>p_id := parseIntAuto (textContent cnode)\<rparr>
        else this)"

definition Permission :: "xmlNode \<Rightarrow> permission" where
  "Permission node =
     Permission_loop (childNodes node) \<lparr>p_name = [], p_builtin = False, p_id = Num (- 1)\<rparr>"

fun parsePermissions_loop :: "xmlNode list \<Rightarrow> (string \<rightharpoonup> permission) \<Rightarrow> (string \<rightharpoonup> permission)" where
  "parsePermissions_loop [] permissions = permissions"
| "parsePermissions_loop (cnode # rest) permissions =
     parsePermissions_loop rest
       (if tagName cnode = ''Permission'' \<and> p_name (Permission cnode) \<noteq> ''__proto__''
        then permissions(p_name (Permission cnode) \<mapsto> Permission cnode)
        else permissions)"

definition parsePermissions :: "xmlNode \<Rightarrow> error + (string \<rightharpoonup> permission)" where
  "parsePermissions root =
     (if tagName root \<noteq> ''Permissions'' then Inl (UnknownElement (tagName root))
      else Inr (parsePermissions_loop (childNodes root) Map.empty))"

subsection \<open>The session controller\<close>

text \<open>
  The module's variables are the fields of \<open>authState\<close>; \<open>underscore_loggedInUser\<close> is the
  variable \<open>_loggedInUser\<close>. The transport is a parameter: \<open>fetch\<close> gives the response to
  a request, and \<open>cookie\<close> is \<open>document.cookie\<close>. A promise that settles is the pair of
  its outcome and the state the module is left in.
\<close>

record authState =
  srpClient :: client
  loggedInUser :: string
  cachedPermissions :: "(string \<rightharpoonup> permission) option"
  underscore_loggedInUser :: string

record request =
  url :: string
  httpMethod :: string
  body :: "string option"

record response =
  status :: int
  responseText :: string
  authParams :: "string option"

datatype jsvalue = JTrue | JFalse | JUndefined

datatype promise = Resolved jsvalue | Rejected error

definition initialState :: authState where
  "initialState = \<lparr>srpClient = newClient, loggedInUser = [], cachedPermissions = None,
     underscore_loggedInUser = []\<rparr>"

fun findAfter :: "string \<Rightarrow> string \<Rightarrow> string option" where
  \<comment> \<open>what follows the first occurrence of \<open>pat\<close> in a string; \<open>None\<close> when there is none\<close>
  "findAfter pat [] = (if pat = [] then Some [] else None)"
| "findAfter pat (c # cs) =
     (if take (length pat) (c # cs) = pat then Some (drop (length pat) (c # cs))
      else findAfter pat cs)"

definition hasSessionCookie :: "string \<Rightarrow> bool" where
  "hasSessionCookie cookie = (findAfter ''_appwebSessionId_'' cookie \<noteq> None)"

definition getUserNameFromLoggedInString :: "string \<Rightarrow> error + string" where
  \<comment> \<open>\<open>str.match(/Logged in as: (.*)/)[1]\<close>: the rest of the line; no match gives
     \<open>null\<close>, whose index fails in the runtime\<close>
  "getUserNameFromLoggedInString str =
     (case findAfter ''Logged in as: '' str of
        None \<Rightarrow> Inl TypeError
      | Some rest \<Rightarrow>
          Inr (takeWhile (\<lambda>c. (of_char c :: nat) \<noteq> 10 \<and> (of_char c :: nat) \<noteq> 13) rest))"

definition permissionsRequest :: "string \<Rightarrow> request" where
  "permissionsRequest username =
     \<lparr>url = ''/LVWSAuthSvc/GetAggregateUserPermissions?username='' @ username,
      httpMethod = ''GET'', body = None\<rparr>"

text \<open>The first \<open>then\<close> of \<open>login\<close>: from the response to the initial request to the
  response the second \<open>then\<close> receives, or an exception.\<close>

definition login_onInitialResponse ::
  "(sha_input \<Rightarrow> string) \<Rightarrow> (request \<Rightarrow> response) \<Rightarrow> int \<Rightarrow> authState \<Rightarrow> string \<Rightarrow> response \<Rightarrow>
     (error + response) \<times> authState" where
  "login_onInitialResponse SHA1 fetch a st username resp =
     (if status resp = 200 then
        (case getUserNameFromLoggedInString (responseText resp) of
           Inl e \<Rightarrow> (Inl e, st)
         | Inr name \<Rightarrow>
             if name = username
             then (Inr (fetch (permissionsRequest username)),
                   st\<lparr>underscore_loggedInUser := name\<rparr>)
             else (Inl (AlreadyLoggedIn name), st\<lparr>underscore_loggedInUser := name\<rparr>))
      else if status resp = 403 then
        (case decodeServerParamsString (authParams resp) of
           Inl e \<Rightarrow> (Inl e, st)
         | Inr info \<Rightarrow>
        (case setServerInfo (srpClient st) info of
           Inl e \<Rightarrow> (Inl e, st)
         | Inr c1 \<Rightarrow>
        (case generatePublicKeyAndProof SHA1 a c1 of
           Inl e \<Rightarrow> (Inl e, st\<lparr>srpClient := c1\<rparr>)
         | Inr (params, c2) \<Rightarrow>
        (case bigIntToBase64 (clientPublicKey params) 128 of
           Inl e \<Rightarrow> (Inl e, st\<lparr>srpClient := c2\<rparr>)
         | Inr a64 \<Rightarrow>
             (Inr (fetch \<lparr>url = ''/Login'', httpMethod = ''POST'',
                     body = Some (''A='' @ makeUrlBase64 a64 @
                       ''&M='' @ makeUrlBase64 (hexStringToBase64 (clientProof params)) @
                       ''&ss='' @ (case si_loginToken info of None \<Rightarrow> ''undefined'' | Some t \<Rightarrow> t))\<rparr>),
              st\<lparr>srpClient := c2\<rparr>)))))
      else (Inl (UnknownStatus (status resp)), st))"

text \<open>The second \<open>then\<close> of \<open>login\<close>. It has no final \<open>else\<close>: for a status other than
  200 and 403 the function returns nothing and the promise resolves to \<open>undefined\<close>.\<close>

definition login_onSecondResponse ::
  "(string \<Rightarrow> xmlNode) \<Rightarrow> authState \<Rightarrow> string \<Rightarrow> response \<Rightarrow> promise \<times> authState" where
  "login_onSecondResponse parseXML st username resp =
     (if status resp = 200 then
        (case parsePermissions (parseXML (responseText resp)) of
           Inl e \<Rightarrow> (Rejected e, st\<lparr>underscore_loggedInUser := username\<rparr>)
         | Inr newPermissions \<Rightarrow>
             (Resolved JTrue,
              st\<lparr>underscore_loggedInUser := username, cachedPermissions := Some newPermissions\<rparr>))
      else if status resp = 403 then (Rejected AuthenticationFailed, st)
      else (Resolved JUndefined, st))"

definition login ::
  "(sha_input \<Rightarrow> string) \<Rightarrow> (string \<Rightarrow> xmlNode) \<Rightarrow> (request \<Rightarrow> response) \<Rightarrow> int \<Rightarrow>
     authState \<Rightarrow> string \<Rightarrow> string \<Rightarrow> promise \<times> authState" where
  "login SHA1 parseXML fetch a st username password =
     (let st1 = st\<lparr>srpClient := setIdentity (srpClient st)
                      \<lparr>i_username = Some username, i_password = Some password\<rparr>\<rparr>;
          resp = fetch \<lparr>url = ''/Login?username='' @ username, httpMethod = ''GET'', body = None\<rparr>
      in case login_onInitialResponse SHA1 fetch a st1 username resp of
           (Inl e, st2) \<Rightarrow> (Rejected e, st2)
         | (Inr resp2, st2) \<Rightarrow> login_onSecondResponse parseXML st2 username resp2)"

definition logout :: "(request \<Rightarrow> response) \<Rightarrow> string \<Rightarrow> authState \<Rightarrow> promise \<times> authState" where
  "logout fetch cookie st =
     (if \<not> hasSessionCookie cookie
      then (Resolved JTrue, st\<lparr>underscore_loggedInUser := []\<rparr>)
      else if status (fetch \<lparr>url = ''/Logout'', httpMethod = ''GET'', body = None\<rparr>) = 200
      then (Resolved JTrue, st\<lparr>underscore_loggedInUser := []\<rparr>)
      else (Resolved JFalse, st))"

definition hasPermission :: "authState \<Rightarrow> string \<Rightarrow> error + bool" where
  \<comment> \<open>\<open>cachedPermissions.hasOwnProperty(permName)\<close>; a cached permission that is itself
     named \<open>hasOwnProperty\<close> hides the method\<close>
  "hasPermission st permName =
     (case cachedPermissions st of
        None \<Rightarrow> Inr False
      | Some perms \<Rightarrow>
          if perms ''hasOwnProperty'' \<noteq> None then Inl TypeError
          else Inr (perms permName \<noteq> None))"

definition getUserName :: "authState \<Rightarrow> string" where
  "getUserName st = underscore_loggedInUser st"


section \<open>Auxiliary notions for the proofs and for closed examples\<close>

text \<open>
  The rest of the definitions are not part of the library. \<open>isInt8\<close>, \<open>uint8\<close> and
  \<open>bigEndian\<close> name what a byte array denotes: its elements read as unsigned bytes, most
  significant first.
\<close>

definition isInt8 :: "jsnum \<Rightarrow> bool" where
  "isInt8 b = (case b of NaN \<Rightarrow> False | Num v \<Rightarrow> - 128 \<le> v \<and> v < 128)"

definition uint8 :: "jsnum \<Rightarrow> int" where
  "uint8 b = (case b of NaN \<Rightarrow> 0 | Num v \<Rightarrow> v mod 256)"

definition bigEndian :: "jsnum list \<Rightarrow> int" where
  "bigEndian bs = foldl (\<lambda>a b. a * 256 + uint8 b) 0 bs"

text \<open>
  The natural byte length of a non-negative integer: the number of its base-256 digits
  (0 for the integer 0).
\<close>

function byteLength :: "int \<Rightarrow> nat" where
  "byteLength n = (if n \<le> 0 then 0 else Suc (byteLength (n div 256)))"
  by pat_completeness auto
termination
  by (relation "measure nat") auto

declare byteLength.simps [simp del]

text \<open>
  A stand-in for the digest function, for closed examples only: 40 hex digits that depend
  on the input through the sum of its bytes, and small enough as a number for the
  exponentiations of an example to be evaluated. It is not SHA-1, and no theorem about
  the protocol depends on it.
\<close>

definition exampleDigest :: "sha_input \<Rightarrow> string" where
  "exampleDigest inp =
     ''000000000000000000000000000000000000000'' @
     [hexChar (1 + (case inp of
                      Bytes bs \<Rightarrow> nat (sum_list (map uint8 bs)) mod 7
                    | Str s \<Rightarrow> sum_list (map of_char s) mod 7))]"

definition exampleEntry :: entry where
  "exampleEntry = \<lparr>e_n = [Num 23], e_g = [Num 5], e_v = [Num 4], e_s = [Num 1, Num 2, Num 3]\<rparr>"

definition exampleServer :: server where
  "exampleServer = newServer (\<lambda>name. if name = ''alice'' then Some exampleEntry else None)"


definition exampleInfo :: serverInfo where
  "exampleInfo = \<lparr>si_modulus = Some 23, si_generator = Some 5,
     si_salt = Some [Num 1, Num 2, Num 3], si_serverPublicKey = Some 8, si_loginToken = None\<rparr>"

definition exampleClient :: client where
  "exampleClient = \<lparr>c_username = Some ''alice'', c_password = Some ''secret'',
     c_modulus = Some 23, c_generator = Some 5, c_salt = Some [Num 1, Num 2, Num 3],
     c_serverPublicKey = Some 8, c_sharedKey = None\<rparr>"

definition exampleKey :: "jsnum list" where
  "exampleKey =
     [Num 0, Num 0, Num 0, Num 0, Num 0, Num 0, Num 0, Num 0, Num 0, Num 0,
      Num 0, Num 0, Num 0, Num 0, Num 0, Num 0, Num 0, Num 0, Num 0, Num 5,
      Num 0, Num 0, Num 0, Num 0, Num 0, Num 0, Num 0, Num 0, Num 0, Num 0,
      Num 0, Num 0, Num 0, Num 0, Num 0, Num 0, Num 0, Num 0, Num 0, Num 6]"

text \<open>
  Further values for closed examples: a digest function that ignores its input, a
  transport that answers the initial login request with a challenge for prime group 0
  and the proof request with status 500, a document of no permissions, and the state of
  a session in which \<open>alice\<close> is logged in with one cached permission. That state is
  what a login leaves behind when the server knows the session of \<open>alice\<close> already:
  \<open>sessionTransport\<close> answers every request with status 200 and the initial login request
  with the line \<open>Logged in as: alice\<close>, and \<open>rebootDocument\<close> is the permission document
  \<^verbatim>\<open><Permissions><Permission><Name>Reboot</Name><BuiltIn>true</BuiltIn><ID>3</ID></Permission></Permissions>\<close>
  as the XML parser gives it.
\<close>

definition constantDigest :: "sha_input \<Rightarrow> string" where
  "constantDigest inp = ''0000000000000000000000000000000000000001''"

definition exampleTransport :: "request \<Rightarrow> response" where
  "exampleTransport req =
     (if httpMethod req = ''POST''
      then \<lparr>status = 500, responseText = [], authParams = None\<rparr>
      else \<lparr>status = 403, responseText = [],
            authParams = Some ''N=0,s=AQID,B=CA==,ss=tok''\<rparr>)"

definition exampleDocument :: "string \<Rightarrow> xmlNode" where
  "exampleDocument t = XmlNode ''Permissions'' [] []"

definition exampleLoggedIn :: authState where
  "exampleLoggedIn =
     \<lparr>srpClient = setIdentity newClient \<lparr>i_username = Some ''alice'', i_password = Some ''secret''\<rparr>,
      loggedInUser = [],
      cachedPermissions =
        Some [''Reboot'' \<mapsto> \<lparr>p_name = ''Reboot'', p_builtin = True, p_id = Num 3\<rparr>],
      underscore_loggedInUser = ''alice''\<rparr>"

definition sessionTransport :: "request \<Rightarrow> response" where
  "sessionTransport req =
     (if url req = ''/Login?username=alice''
      then \<lparr>status = 200, responseText = ''Logged in as: alice'', authParams = None\<rparr>
      else \<lparr>status = 200, responseText = [], authParams = None\<rparr>)"

definition rebootDocument :: "string \<Rightarrow> xmlNode" where
  "rebootDocument t =
     XmlNode ''Permissions'' ''Reboottrue3''
       [XmlNode ''Permission'' ''Reboottrue3''
          [XmlNode ''Name'' ''Reboot'' [], XmlNode ''BuiltIn'' ''true'' [], XmlNode ''ID'' ''3'' []]]"


section \<open>Utils.js: properties\<close>

subsection \<open>byteStringToByteArray\<close>

lemma byteStringToByteArray_loop_eq:
  "byteStringToByteArray_loop str i ar = ar @ map fromCharCode [i..<length str]"
proof (induction str i ar rule: byteStringToByteArray_loop.induct)
  case (1 str i ar)
  show ?case
  proof (cases "i < length str")
    case True
    then have "[i..<length str] = i # [i + 1..<length str]"
      by (simp add: upt_conv_Cons)
    with True 1 show ?thesis
      by (subst byteStringToByteArray_loop.simps) simp
  next
    case False
    then show ?thesis
      by (subst byteStringToByteArray_loop.simps) simp
  qed
qed

text \<open>
  Claim C10. The result of \<open>byteStringToByteArray\<close> is the array of the one-character
  strings \<open>String.fromCharCode(0)\<close>, ..., \<open>String.fromCharCode(n - 1)\<close> for a string of
  length \<open>n\<close>: it depends on the length of the input only, two strings of the same
  length give the same array.
\<close>

theorem byteStringToByteArray_ignores_characters:
  "byteStringToByteArray s = map fromCharCode [0..<length s] \<and>
   (length s = length t \<longrightarrow> byteStringToByteArray s = byteStringToByteArray t)"
  by (simp add: byteStringToByteArray_def byteStringToByteArray_loop_eq)

theorem byteStringToByteArray_ignores_characters_witness:
  "byteStringToByteArray ''abc'' = [[0], [1], [2]] \<and>
   byteStringToByteArray ''abc'' = byteStringToByteArray ''xyz''"
proof -
  have a: "byteStringToByteArray ''abc'' = [[0], [1], [2]]"
    using byteStringToByteArray_ignores_characters [of "''abc''" "''xyz''"]
    by (simp add: fromCharCode_def upt_rec)
  have b: "byteStringToByteArray ''abc'' = byteStringToByteArray ''xyz''"
  proof -
    have "length ''abc'' = length ''xyz''" by simp
    then show ?thesis
      using byteStringToByteArray_ignores_characters [of "''abc''" "''xyz''"] by blast
  qed
  show ?thesis by (rule conjI [OF a b])
qed

subsection \<open>xorHashStrings\<close>

lemma chunk_count_step:
  assumes "i < (n::nat)"
  shows "(n - i + 3) div 4 = Suc ((n - (i + 4) + 3) div 4)"
proof (cases "i + 4 \<le> n")
  case True
  then have "n - i + 3 = (n - (i + 4) + 3) + 4" by simp
  then show ?thesis by (simp only: div_add_self2)
next
  case False
  with assms have "n - (i + 4) = 0" "4 \<le> n - i + 3" "n - i + 3 < 8" by simp_all
  then show ?thesis by (simp add: div_nat_eqI)
qed

lemma chunk_count_exact: "(n::nat) mod 4 = 0 \<Longrightarrow> 4 * ((n + 3) div 4) = n"
proof -
  assume "n mod 4 = 0"
  then obtain k where "n = 4 * k" by (auto simp: mod_eq_0_iff_dvd)
  then show ?thesis by simp
qed

lemma replicate4: "replicate 4 x = [x, x, x, x]"
  by (simp add: eval_nat_numeral)

lemma js_xor_self: "js_xor x x = Num 0"
  by (simp add: js_xor_def)

lemma toString16_zero: "toString16 (Num 0) = ''0''"
  by (simp add: toString16_def hexDigits.simps hexChar_def)

lemma xorHashStrings_loop_self:
  "b = a \<Longrightarrow>
   xorHashStrings_loop a b i res = res @ replicate (4 * ((length a - i + 3) div 4)) (CHR ''0'')"
proof (induction a b i res rule: xorHashStrings_loop.induct)
  case (1 a b i res)
  show ?case
  proof (cases "i < length a")
    case True
    with True 1 chunk_count_step [OF True] show ?thesis
      by (subst xorHashStrings_loop.simps)
        (simp add: js_xor_self toString16_zero substrLast_def replicate_add replicate4)
  next
    case False
    then show ?thesis
      by (subst xorHashStrings_loop.simps) simp
  qed
qed

lemmas xor_eval =
  xorHashStrings_def xorHashStrings_loop.simps substr_def parseInt_def isWhiteSpace_def
  digitValue_def digitsValue_def js_xor_def toInt32_def toString16_def hexDigits.simps
  hexChar_def substrLast_def

text \<open>
  Claim C9, as the code has it. \<open>xorHashStrings a a\<close> is a string of \<open>0\<close> characters,
  one group of four for every started group of four characters of \<open>a\<close>: it has the
  length of \<open>a\<close> when that length is a multiple of 4 (the assumption the source states
  in its comment; a digest of 40 hex digits meets it). Two strings of different lengths
  fail with the length-mismatch error.
\<close>

theorem xorHashStrings_self:
  "(length a mod 4 = 0 \<longrightarrow> xorHashStrings a a = Inr (replicate (length a) (CHR ''0''))) \<and>
   xorHashStrings a a = Inr (replicate (4 * ((length a + 3) div 4)) (CHR ''0'')) \<and>
   (length a \<noteq> length b \<longrightarrow> xorHashStrings a b = Inl LengthMismatch)"
proof -
  have g: "xorHashStrings a a = Inr (replicate (4 * ((length a + 3) div 4)) (CHR ''0''))"
    by (simp add: xorHashStrings_def xorHashStrings_loop_self)
  with chunk_count_exact [of "length a"] show ?thesis
    by (simp add: xorHashStrings_def)
qed

theorem xorHashStrings_self_witness:
  "xorHashStrings ''a7a9e7e59519897d'' ''a7a9e7e59519897d'' = Inr ''0000000000000000'' \<and>
   xorHashStrings ''a7a9'' ''30a85174'' = Inl LengthMismatch"
  using xorHashStrings_self [of "''a7a9e7e59519897d''" "''30a85174''"]
    xorHashStrings_self [of "''a7a9''" "''30a85174''"]
  by (simp add: xorHashStrings_def)

text \<open>
  The claim as it was stated, for every hex digest string, fails on a digest of one byte:
  the result of \<open>xorHashStrings ''ab'' ''ab''\<close> has four characters, not two.
\<close>

theorem xorHashStrings_self_length_counterexample:
  "xorHashStrings ''ab'' ''ab'' = Inr ''0000'' \<and> length ''0000'' \<noteq> length ''ab''"
  by (simp add: xor_eval)

text \<open>The example of the source's comment.\<close>

lemma xorHashStrings_example:
  "xorHashStrings ''a7a9e7e59519897d'' ''30a85174187253d3'' = Inr ''9701b6918d6bdaae''"
  by (simp add: xor_eval)

subsection \<open>bigIntegerToBytes\<close>

lemma and_255: "(v::int) AND 255 = v mod 256"
proof -
  have "(255::int) = mask 8" by (simp add: mask_eq_exp_minus_1)
  then have "v AND 255 = take_bit 8 v" by (simp only: take_bit_eq_mask)
  then show ?thesis by (simp add: take_bit_eq_mod)
qed

lemma toInt32_small: "- 128 \<le> v \<Longrightarrow> v < 128 \<Longrightarrow> toInt32 (Num v) = v"
proof -
  assume a: "- 128 \<le> v" "v < 128"
  show ?thesis
  proof (cases "0 \<le> v")
    case True
    with a have "v mod 2 ^ 32 = v" by simp
    with a show ?thesis by (simp add: toInt32_def Let_def)
  next
    case False
    with a have "v mod 4294967296 = v + 4294967296"
      by (intro int_mod_pos_eq [where q = "- 1"]) simp_all
    with a show ?thesis by (simp add: toInt32_def Let_def)
  qed
qed

lemma digitValue_hexChar: "k < 16 \<Longrightarrow> digitValue (hexChar k) = k"
proof -
  assume "k < 16"
  have e: "[0..<16] = [0, 1, 2, 3, 4, 5, 6, 7, 8, 9, 10, 11, 12, 13, 14, 15 :: nat]"
    by code_simp
  have "k \<in> set [0..<16]" using \<open>k < 16\<close> by simp
  then have "k \<in> set [0, 1, 2, 3, 4, 5, 6, 7, 8, 9, 10, 11, 12, 13, 14, 15 :: nat]"
    by (simp only: e)
  then show ?thesis
    by (auto simp: digitValue_def hexChar_def)
qed

lemma hexDigits_byte:
  assumes "u < 256"
  shows "substrLast (''00'' @ hexDigits u) 2 = [hexChar (u div 16), hexChar (u mod 16)]"
proof (cases "u < 16")
  case True
  then show ?thesis
    by (simp add: hexDigits.simps [of u] substrLast_def hexChar_def)
next
  case False
  with assms have "u div 16 < 16" by simp
  with False show ?thesis
    by (simp add: hexDigits.simps [of u] hexDigits.simps [of "u div 16"] substrLast_def)
qed


lemma uint8_range: "0 \<le> uint8 b" "uint8 b < 256"
  by (cases b; simp add: uint8_def)+

lemma byteHex_int8:
  assumes "isInt8 b"
  shows "substrLast (''00'' @ toString16 (js_and b (Num 255))) 2 =
         [hexChar (nat (uint8 b) div 16), hexChar (nat (uint8 b) mod 16)]"
proof -
  from assms obtain v where b: "b = Num v" "- 128 \<le> v" "v < 128"
    by (cases b) (auto simp: isInt8_def)
  have "toInt32 (Num 255) = 255" by (simp add: toInt32_def)
  with b have "js_and b (Num 255) = Num (v mod 256)"
    by (simp add: js_and_def toInt32_small and_255)
  moreover have "nat (v mod 256) < 256" by simp
  moreover have "\<not> v mod 256 < 0" by (simp add: not_less)
  ultimately show ?thesis
    using hexDigits_byte [of "nat (v mod 256)"] b
    by (simp add: toString16_def uint8_def)
qed

lemma digitsValue_snoc: "digitsValue r (s @ [c]) = digitsValue r s * r + digitValue c"
  by (simp add: digitsValue_def)

lemma byteArrayToHashString_snoc:
  "byteArrayToHashString (bs @ [b]) =
   byteArrayToHashString bs @ substrLast (''00'' @ toString16 (js_and b (Num 255))) 2"
  by (simp add: byteArrayToHashString_def)

lemma bytesToBigInteger_snoc:
  assumes "isInt8 b"
  shows "bytesToBigInteger (bs @ [b]) = bytesToBigInteger bs * 256 + uint8 b"
proof -
  define u where "u = nat (uint8 b)"
  define hs where "hs = filter (\<lambda>c. digitValue c < 16) (byteArrayToHashString bs)"
  have u: "u < 256" "int u = uint8 b"
    using uint8_range [of b] by (simp_all add: u_def)
  then have d: "u div 16 < 16" "u mod 16 < 16" by simp_all
  have "byteArrayToHashString (bs @ [b]) =
        byteArrayToHashString bs @ [hexChar (u div 16), hexChar (u mod 16)]"
    by (simp only: byteArrayToHashString_snoc byteHex_int8 [OF assms] u_def)
  then have "filter (\<lambda>c. digitValue c < 16) (byteArrayToHashString (bs @ [b])) =
        (hs @ [hexChar (u div 16)]) @ [hexChar (u mod 16)]"
    using d by (simp add: digitValue_hexChar hs_def)
  then have "digitsValue 16 (filter (\<lambda>c. digitValue c < 16) (byteArrayToHashString (bs @ [b]))) =
        (digitsValue 16 hs * 16 + u div 16) * 16 + u mod 16"
    using d by (simp only: digitsValue_snoc digitValue_hexChar)
  also have "\<dots> = digitsValue 16 hs * 256 + (16 * (u div 16) + u mod 16)"
    by (simp add: algebra_simps)
  also have "16 * (u div 16) + u mod 16 = u" by simp
  finally show ?thesis
    using u by (simp add: bytesToBigInteger_def bigIntegerFromHex_def hs_def)
qed

lemma bigEndian_snoc: "bigEndian (bs @ [b]) = bigEndian bs * 256 + uint8 b"
  by (simp add: bigEndian_def)

lemma bytesToBigInteger_bigEndian:
  "list_all isInt8 bs \<Longrightarrow> bytesToBigInteger bs = bigEndian bs"
proof (induction bs rule: rev_induct)
  case Nil
  show ?case
    by (simp add: bytesToBigInteger_def bigIntegerFromHex_def byteArrayToHashString_def
        digitsValue_def bigEndian_def)
next
  case (snoc b bs)
  then show ?case
    by (simp add: bytesToBigInteger_snoc bigEndian_snoc)
qed

lemma int8_range: "0 \<le> d \<Longrightarrow> d < 256 \<Longrightarrow> - 128 \<le> int8 d \<and> int8 d < 128"
  by (simp add: int8_def)

lemma int8_mod: "0 \<le> d \<Longrightarrow> d < 256 \<Longrightarrow> int8 d mod 256 = d"
  by (simp add: int8_def)

lemma toByteArray_small: "- 128 \<le> n \<and> n < 128 \<Longrightarrow> toByteArray n = [Num n]"
  by (subst toByteArray.simps) (rule if_P)

lemma toByteArray_big:
  "\<not> (- 128 \<le> n \<and> n < 128) \<Longrightarrow>
   toByteArray n = toByteArray (n div 256) @ [Num (int8 (n mod 256))]"
  by (subst toByteArray.simps) (rule if_not_P)

lemma toByteArray_int8: "list_all isInt8 (toByteArray n)"
proof (induction n rule: toByteArray.induct)
  case (1 n)
  show ?case
  proof (cases "- 128 \<le> n \<and> n < 128")
    case True
    then show ?thesis
      by (simp add: toByteArray_small isInt8_def)
  next
    case False
    have "isInt8 (Num (int8 (n mod 256)))"
      using int8_range [of "n mod 256"] by (simp add: isInt8_def)
    with 1 [OF False] show ?thesis
      by (simp add: toByteArray_big [OF False])
  qed
qed

lemma bigEndian_toByteArray: "0 \<le> n \<Longrightarrow> bigEndian (toByteArray n) = n"
proof (induction n rule: toByteArray.induct)
  case (1 n)
  show ?case
  proof (cases "- 128 \<le> n \<and> n < 128")
    case True
    with 1(2) show ?thesis
      by (simp add: toByteArray_small bigEndian_def uint8_def)
  next
    case False
    from 1(2) have "0 \<le> n div 256" by simp
    with 1(1) [OF False] have "bigEndian (toByteArray (n div 256)) = n div 256" .
    with int8_mod [of "n mod 256"] show ?thesis
      by (simp add: toByteArray_big [OF False] bigEndian_snoc uint8_def)
  qed
qed

lemma bigEndian_append:
  "bigEndian (xs @ ys) = bigEndian xs * 256 ^ length ys + bigEndian ys"
proof (induction ys rule: rev_induct)
  case Nil
  show ?case by (simp add: bigEndian_def)
next
  case (snoc y ys)
  have "bigEndian (xs @ ys @ [y]) = bigEndian ((xs @ ys) @ [y])" by simp
  also have "\<dots> = bigEndian (xs @ ys) * 256 + uint8 y" by (rule bigEndian_snoc)
  finally show ?case by (simp add: snoc bigEndian_snoc algebra_simps)
qed

lemma bigEndian_bounds: "0 \<le> bigEndian bs \<and> bigEndian bs < 256 ^ length bs"
proof (induction bs rule: rev_induct)
  case Nil
  show ?case by (simp add: bigEndian_def)
next
  case (snoc b bs)
  with uint8_range [of b] show ?case
    by (simp add: bigEndian_snoc)
qed

lemma uint8_zero_iff: "isInt8 b \<Longrightarrow> (uint8 b = 0) = (b = Num 0)"
proof (cases b)
  case NaN
  assume "isInt8 b"
  with NaN show ?thesis by (simp add: isInt8_def)
next
  case (Num v)
  assume "isInt8 b"
  with Num have r: "- 128 \<le> v" "v < 128" by (simp_all add: isInt8_def)
  have "(v mod 256 = 0) = (v = 0)"
  proof
    assume "v mod 256 = 0"
    then have "256 dvd v" by (simp add: mod_eq_0_iff_dvd)
    then obtain k where "v = 256 * k" by (auto simp: dvd_def)
    with r show "v = 0" by simp
  qed simp
  with Num show ?thesis by (simp add: uint8_def)
qed

lemma bigEndian_zero_iff:
  "list_all isInt8 xs \<Longrightarrow> (bigEndian xs = 0) = (\<not> list_ex (\<lambda>b. b \<noteq> Num 0) xs)"
proof (induction xs rule: rev_induct)
  case Nil
  show ?case by (simp add: bigEndian_def)
next
  case (snoc x xs)
  then have ih: "(bigEndian xs = 0) = (\<not> list_ex (\<lambda>b. b \<noteq> Num 0) xs)" and x: "isInt8 x"
    by simp_all
  have "(bigEndian xs * 256 + uint8 x = 0) = (bigEndian xs = 0 \<and> uint8 x = 0)"
    using bigEndian_bounds [of xs] uint8_range [of x] by auto
  with ih uint8_zero_iff [OF x] show ?case
    by (simp add: bigEndian_snoc)
qed

lemma bigEndian_replicate: "bigEndian (replicate k (Num 0) @ bs) = bigEndian bs"
proof -
  have "list_all isInt8 (replicate k (Num 0))"
    by (simp add: list_all_iff isInt8_def)
  moreover have "\<not> list_ex (\<lambda>b. b \<noteq> Num 0) (replicate k (Num 0))"
    by (simp add: list_ex_iff)
  ultimately have "bigEndian (replicate k (Num 0)) = 0"
    by (simp add: bigEndian_zero_iff)
  then show ?thesis by (simp add: bigEndian_append)
qed


lemma bigIntegerToBytes_fits:
  assumes n: "0 \<le> n" and w: "n < 256 ^ w"
  shows "\<exists>bs. bigIntegerToBytes n w = Inr bs \<and> length bs = w \<and> bytesToBigInteger bs = n \<and>
           (length (toByteArray n) \<le> w \<longrightarrow>
              bs = replicate (w - length (toByteArray n)) (Num 0) @ toByteArray n)"
proof -
  define bytes where "bytes = toByteArray n"
  have i8: "list_all isInt8 bytes" by (simp add: bytes_def toByteArray_int8)
  have v: "bigEndian bytes = n" using n by (simp add: bytes_def bigEndian_toByteArray)
  consider (eq) "length bytes = w" | (lt) "length bytes < w" | (gt) "w < length bytes"
    by linarith
  then show ?thesis
  proof cases
    case eq
    with i8 v show ?thesis
      by (simp add: bigIntegerToBytes_def bytes_def [symmetric] bytesToBigInteger_bigEndian)
  next
    case lt
    have "isInt8 (Num 0)" by (simp add: isInt8_def)
    then have "list_all isInt8 (replicate (w - length bytes) (Num 0) @ bytes)"
      using i8 by (auto simp: list_all_iff)
    with lt v show ?thesis
      by (simp add: bigIntegerToBytes_def bytes_def [symmetric] bytesToBigInteger_bigEndian
          bigEndian_replicate)
  next
    case gt
    define k where "k = length bytes - w"
    have split: "bytes = take k bytes @ drop k bytes" by simp
    have len: "length (drop k bytes) = w" using gt by (simp add: k_def)
    have i8t: "list_all isInt8 (take k bytes)" and i8d: "list_all isInt8 (drop k bytes)"
      using i8 by (auto simp: list_all_iff dest: in_set_takeD in_set_dropD)
    have "n = bigEndian (take k bytes) * 256 ^ w + bigEndian (drop k bytes)"
      using bigEndian_append [of "take k bytes" "drop k bytes"] v len by simp
    moreover have "0 \<le> bigEndian (take k bytes)" "0 \<le> bigEndian (drop k bytes)"
      using bigEndian_bounds by blast+
    ultimately have "bigEndian (take k bytes) = 0"
    proof -
      assume a: "n = bigEndian (take k bytes) * 256 ^ w + bigEndian (drop k bytes)"
        "0 \<le> bigEndian (take k bytes)" "0 \<le> bigEndian (drop k bytes)"
      show ?thesis
      proof (rule ccontr)
        assume "bigEndian (take k bytes) \<noteq> 0"
        with a(2) have "1 \<le> bigEndian (take k bytes)" by simp
        then have "1 * 256 ^ w \<le> bigEndian (take k bytes) * (256 ^ w :: int)"
          by (intro mult_right_mono) simp_all
        with a w show False by simp
      qed
    qed
    then have z: "\<not> list_ex (\<lambda>b. b \<noteq> Num 0) (take k bytes)"
      and d: "bigEndian (drop k bytes) = n"
      using bigEndian_zero_iff [OF i8t] bigEndian_append [of "take k bytes" "drop k bytes"] v
      by simp_all
    from gt z d len i8d show ?thesis
      by (simp add: bigIntegerToBytes_def bytes_def [symmetric] k_def [symmetric]
          bytesToBigInteger_bigEndian)
  qed
qed

lemma bigIntegerToBytes_truncation:
  assumes n: "0 \<le> n" and w: "256 ^ w \<le> n"
  shows "bigIntegerToBytes n w = Inl (Truncation w)"
proof -
  define bytes where "bytes = toByteArray n"
  have i8: "list_all isInt8 bytes" by (simp add: bytes_def toByteArray_int8)
  have v: "bigEndian bytes = n" using n by (simp add: bytes_def bigEndian_toByteArray)
  have gt: "w < length bytes"
  proof (rule ccontr)
    assume "\<not> w < length bytes"
    then have "(256::int) ^ length bytes \<le> 256 ^ w"
      by (intro power_increasing) simp_all
    with bigEndian_bounds [of bytes] v w show False by simp
  qed
  define k where "k = length bytes - w"
  have len: "length (drop k bytes) = w" using gt by (simp add: k_def)
  have i8t: "list_all isInt8 (take k bytes)"
    using i8 by (auto simp: list_all_iff dest: in_set_takeD)
  have "list_ex (\<lambda>b. b \<noteq> Num 0) (take k bytes)"
  proof (rule ccontr)
    assume "\<not> list_ex (\<lambda>b. b \<noteq> Num 0) (take k bytes)"
    then have "bigEndian (take k bytes) = 0"
      using bigEndian_zero_iff [OF i8t] by simp
    then have "bigEndian (drop k bytes) = n"
      using bigEndian_append [of "take k bytes" "drop k bytes"] v by simp
    with bigEndian_bounds [of "drop k bytes"] len w show False by simp
  qed
  with gt show ?thesis
    by (simp add: bigIntegerToBytes_def bytes_def [symmetric] k_def [symmetric])
qed

lemma int_div_256_less: "((n::int) div 256 < K) = (n < K * 256)"
proof -
  define d where "d = n div 256"
  define r where "r = n mod 256"
  have "n = 256 * d + r" "0 \<le> r" "r < 256"
    by (simp_all add: d_def r_def)
  then show ?thesis
    unfolding d_def [symmetric] by arith
qed

lemma byteLength_le_iff: "0 \<le> n \<Longrightarrow> (byteLength n \<le> w) = (n < 256 ^ w)"
proof (induction n arbitrary: w rule: byteLength.induct)
  case (1 n)
  show ?case
  proof (cases "n \<le> 0")
    case True
    with 1(2) have "n = 0" by simp
    then show ?thesis by (simp add: byteLength.simps [of 0])
  next
    case False
    then have bl: "byteLength n = Suc (byteLength (n div 256))"
      by (subst byteLength.simps) simp
    from 1(2) have d: "0 \<le> n div 256" by simp
    show ?thesis
    proof (cases w)
      case 0
      with False bl show ?thesis by simp
    next
      case (Suc w')
      from 1(1) [OF False d, of w'] Suc bl show ?thesis
        by (simp add: int_div_256_less mult.commute)
    qed
  qed
qed

text \<open>
  Claim C8. For a non-negative integer \<open>n\<close> and a width \<open>w\<close> (\<open>intToFixedBytes\<close> of the
  specification is \<open>bigIntegerToBytes\<close>):
  \<^item> when \<open>w\<close> is at least the natural byte length of \<open>n\<close>, the call returns exactly \<open>w\<close>
    bytes whose big-endian value is \<open>n\<close>; when the representation \<open>toByteArray n\<close> is
    not longer than \<open>w\<close>, they are that representation left-padded with zero bytes;
  \<^item> when \<open>w\<close> is smaller than the natural byte length (a nonzero byte would be
    dropped), the call fails with the truncation error;
  \<^item> when the representation is longer than \<open>w\<close> and every dropped leading byte is
    zero, the call succeeds with the last \<open>w\<close> bytes.
\<close>

theorem bigIntegerToBytes_fixed_width:
  assumes "0 \<le> n"
  shows "(byteLength n \<le> w \<longrightarrow>
           (\<exists>bs. bigIntegerToBytes n w = Inr bs \<and> length bs = w \<and> bytesToBigInteger bs = n \<and>
              (length (toByteArray n) \<le> w \<longrightarrow>
                 bs = replicate (w - length (toByteArray n)) (Num 0) @ toByteArray n))) \<and>
         (w < byteLength n \<longrightarrow> bigIntegerToBytes n w = Inl (Truncation w)) \<and>
         (w < length (toByteArray n) \<and>
          \<not> list_ex (\<lambda>b. b \<noteq> Num 0) (take (length (toByteArray n) - w) (toByteArray n)) \<longrightarrow>
            bigIntegerToBytes n w = Inr (drop (length (toByteArray n) - w) (toByteArray n)))"
proof -
  have "w < length (toByteArray n) \<and>
        \<not> list_ex (\<lambda>b. b \<noteq> Num 0) (take (length (toByteArray n) - w) (toByteArray n)) \<longrightarrow>
        bigIntegerToBytes n w = Inr (drop (length (toByteArray n) - w) (toByteArray n))"
    by (simp add: bigIntegerToBytes_def Let_def)
  moreover have "w < byteLength n \<longrightarrow> 256 ^ w \<le> n"
    using byteLength_le_iff [OF assms, of w] by auto
  ultimately show ?thesis
    using assms bigIntegerToBytes_fits [of n w] bigIntegerToBytes_truncation [of n w]
      byteLength_le_iff [OF assms, of w]
    by blast
qed

lemma byteLength_255: "byteLength 255 = 1"
  by (simp add: byteLength.simps)

lemma byteLength_256: "byteLength 256 = 2"
  by (simp add: byteLength.simps)

lemma toByteArray_255: "toByteArray 255 = [Num 0, Num (- 1)]"
  by (simp add: toByteArray.simps int8_def)

lemma toByteArray_256: "toByteArray 256 = [Num 1, Num 0]"
  by (simp add: toByteArray.simps int8_def)

theorem bigIntegerToBytes_fixed_width_witness:
  "bigIntegerToBytes 255 4 = Inr [Num 0, Num 0, Num 0, Num (- 1)] \<and>
   bytesToBigInteger [Num 0, Num 0, Num 0, Num (- 1)] = 255 \<and>
   bigIntegerToBytes 255 1 = Inr [Num (- 1)] \<and>
   bigIntegerToBytes 256 1 = Inl (Truncation 1)"
proof -
  have a: "bigIntegerToBytes 255 4 = Inr [Num 0, Num 0, Num 0, Num (- 1)] \<and>
      bytesToBigInteger [Num 0, Num 0, Num 0, Num (- 1)] = 255"
    using bigIntegerToBytes_fixed_width [of 255 4]
    by (auto simp: toByteArray_255 byteLength_255 eval_nat_numeral)
  have b: "bigIntegerToBytes 255 1 = Inr [Num (- 1)]"
    using bigIntegerToBytes_fixed_width [of 255 1]
    by (simp add: toByteArray_255 byteLength_255)
  have c: "bigIntegerToBytes 256 1 = Inl (Truncation 1)"
    using bigIntegerToBytes_fixed_width [of 256 1] by (simp add: byteLength_256)
  from a b c show ?thesis by blast
qed


section \<open>SRP.js: properties\<close>

subsection \<open>The client's shared secret\<close>

lemma Sc_base_mod:
  "(B + (k * (N - P mod N)) mod N) mod N = (B - k * P) mod (N::int)"
proof -
  have "B + k * (N - P mod N) = (B - k * (P mod N)) + k * N"
    by (simp add: algebra_simps)
  then have "(B + k * (N - P mod N)) mod N = (B - k * (P mod N)) mod N"
    by (simp only: mod_mult_self1)
  also have "\<dots> = (B - (k * (P mod N)) mod N) mod N"
    by (simp only: mod_diff_right_eq)
  also have "\<dots> = (B - (k * P) mod N) mod N"
    by (simp only: mod_mult_right_eq)
  also have "\<dots> = (B - k * P) mod N"
    by (simp only: mod_diff_right_eq)
  finally show ?thesis
    by (simp only: mod_add_right_eq)
qed

lemma modPow_power: "1 < m \<Longrightarrow> modPow g e m = g ^ nat e mod m"
  by (simp add: modPow_def)

text \<open>
  Claim C2, as the code has it. For a modulus \<open>N\<close> greater than 1 and non-negative
  exponents \<open>x\<close> and \<open>a + u x\<close>, the value \<open>Sc\<close> computes,
  \<open>(B + (k (N - g^x mod N)) mod N)^(a + u x) mod N\<close>, is the specified
  \<open>(B - k g^x mod N)^(a + u x) mod N\<close>, whether the inner \<open>mod N\<close> is read as applying
  to \<open>B - k g^x\<close> or to \<open>k g^x\<close>.
\<close>

theorem SRP_Sc_formula:
  assumes "1 < N" and "0 \<le> x" and "0 \<le> a + u * x"
  shows "SRP_Sc N g B k x a u = ((B - k * g ^ nat x) mod N) ^ nat (a + u * x) mod N \<and>
         SRP_Sc N g B k x a u = (B - (k * g ^ nat x) mod N) ^ nat (a + u * x) mod N \<and>
         SRP_Sc N g B k x a u = (B + (k * (N - g ^ nat x mod N)) mod N) ^ nat (a + u * x) mod N"
proof -
  have c: "SRP_Sc N g B k x a u = (B + (k * (N - g ^ nat x mod N)) mod N) ^ nat (a + u * x) mod N"
    by (simp only: SRP_Sc_def modPow_power [OF assms(1)])
  have "(B + (k * (N - g ^ nat x mod N)) mod N) ^ nat (a + u * x) mod N =
        ((B + (k * (N - g ^ nat x mod N)) mod N) mod N) ^ nat (a + u * x) mod N"
    by (simp only: power_mod)
  also have "\<dots> = ((B - k * g ^ nat x) mod N) ^ nat (a + u * x) mod N"
    by (simp only: Sc_base_mod)
  finally have a: "SRP_Sc N g B k x a u = ((B - k * g ^ nat x) mod N) ^ nat (a + u * x) mod N"
    using c by simp
  have "(B - (k * g ^ nat x) mod N) mod N = (B - k * g ^ nat x) mod N"
    by (simp only: mod_diff_right_eq)
  then have "((B - k * g ^ nat x) mod N) ^ nat (a + u * x) mod N =
        (B - (k * g ^ nat x) mod N) ^ nat (a + u * x) mod N"
    by (metis power_mod)
  with a c show ?thesis by simp
qed

theorem SRP_Sc_formula_witness:
  "(1::int) < 23 \<and> (0::int) \<le> 2 \<and> (0::int) \<le> 3 + 2 * 2 \<and>
   SRP_Sc 23 5 9 3 2 3 2 = ((9 - 3 * 5 ^ 2) mod 23) ^ 7 mod 23 \<and>
   SRP_Sc 23 5 9 3 2 3 2 = 2"
  using SRP_Sc_formula [of 23 2 3 2 5 9 3]
  by (simp add: SRP_Sc_def modPow_def)

text \<open>
  The claim as it was stated, for every positive modulus, fails at the modulus 1 with the
  exponent 0: \<open>modPow\<close> answers 1 for the exponent 0 whatever the modulus, so \<open>Sc\<close>
  returns 1, and the specified quantity, a remainder modulo 1, is 0. (For a negative
  exponent the specified quantity is no integer, and what jsbn returns there is outside
  the model; hence the two conditions on the exponents above.)
\<close>

theorem SRP_Sc_modulus_one_counterexample:
  "SRP_Sc 1 5 9 3 0 0 0 = 1 \<and>
   ((9 - 3 * 5 ^ nat 0) mod 1) ^ nat (0 + 0 * 0) mod 1 = (0::int) \<and>
   (9 - (3 * 5 ^ nat 0) mod 1) ^ nat (0 + 0 * 0) mod 1 = (0::int)"
  by (simp add: SRP_Sc_def modPow_def)

subsection \<open>Client and server derive the same key\<close>

lemma bigIntegerFromHex_nonneg: "0 \<le> bigIntegerFromHex s"
  by (simp add: bigIntegerFromHex_def)

lemma B_minus_kv:
  "((k * (P mod N) + Q mod N) mod N - k * P) mod N = Q mod (N::int)"
proof -
  have "(k * (P mod N) + Q mod N) mod N = (k * (P mod N) + Q) mod N"
    by (simp only: mod_add_right_eq)
  also have "\<dots> = ((k * (P mod N)) mod N + Q) mod N"
    by (simp only: mod_add_left_eq)
  also have "\<dots> = ((k * P) mod N + Q) mod N"
    by (simp only: mod_mult_right_eq)
  also have "\<dots> = (k * P + Q) mod N"
    by (simp only: mod_add_left_eq)
  finally have "((k * (P mod N) + Q mod N) mod N - k * P) mod N = ((k * P + Q) mod N - k * P) mod N"
    by (simp only:)
  also have "\<dots> = (k * P + Q - k * P) mod N"
    by (simp only: mod_diff_left_eq)
  also have "\<dots> = Q mod N" by simp
  finally show ?thesis .
qed

lemma shared_secret_agreement:
  assumes "0 \<le> a" "0 \<le> u" "0 \<le> x" "0 \<le> b" and N: "1 < N"
  shows "SRP_Sc N g ((k * SRP_v N g x + modPow g b N) mod N) k x a u =
         SRP_Ss N (SRP_A N g a) (SRP_v N g x) u b"
proof -
  define P where "P = g ^ nat x"
  define Q where "Q = g ^ nat b"
  define B where "B = (k * (P mod N) + Q mod N) mod N"
  have e: "nat (a + u * x) = nat a + nat x * nat u"
    using assms by (simp add: nat_add_distrib nat_mult_distrib mult.commute)
  have base: "(B + (k * (N - P mod N)) mod N) mod N = Q mod N"
    by (simp only: Sc_base_mod B_def B_minus_kv)
  have "SRP_Sc N g ((k * SRP_v N g x + modPow g b N) mod N) k x a u =
        (B + (k * (N - P mod N)) mod N) ^ nat (a + u * x) mod N"
    by (simp only: SRP_Sc_def SRP_v_def modPow_power [OF N] P_def Q_def B_def)
  also have "\<dots> = ((B + (k * (N - P mod N)) mod N) mod N) ^ nat (a + u * x) mod N"
    by (simp only: power_mod)
  also have "\<dots> = Q ^ nat (a + u * x) mod N"
    by (simp only: base power_mod)
  also have "\<dots> = g ^ (nat b * (nat a + nat x * nat u)) mod N"
    by (simp only: Q_def power_mult e)
  finally have l: "SRP_Sc N g ((k * SRP_v N g x + modPow g b N) mod N) k x a u =
      g ^ (nat b * (nat a + nat x * nat u)) mod N" .
  have "SRP_Ss N (SRP_A N g a) (SRP_v N g x) u b =
        ((g ^ nat a mod N) * ((P mod N) ^ nat u mod N)) ^ nat b mod N"
    by (simp only: SRP_Ss_def SRP_A_def SRP_v_def modPow_power [OF N] P_def)
  also have "\<dots> = (((g ^ nat a mod N) * ((P mod N) ^ nat u mod N)) mod N) ^ nat b mod N"
    by (simp only: power_mod)
  also have "((g ^ nat a mod N) * ((P mod N) ^ nat u mod N)) mod N = (g ^ nat a * P ^ nat u) mod N"
    by (simp only: power_mod mod_mult_eq)
  also have "((g ^ nat a * P ^ nat u) mod N) ^ nat b mod N = (g ^ nat a * P ^ nat u) ^ nat b mod N"
    by (simp only: power_mod)
  also have "(g ^ nat a * P ^ nat u) ^ nat b = g ^ (nat b * (nat a + nat x * nat u))"
  proof -
    have "P ^ nat u = g ^ (nat x * nat u)" by (simp only: P_def power_mult)
    then have "g ^ nat a * P ^ nat u = g ^ (nat a + nat x * nat u)" by (simp only: power_add)
    then have "(g ^ nat a * P ^ nat u) ^ nat b = g ^ ((nat a + nat x * nat u) * nat b)"
      by (simp only: power_mult)
    then show ?thesis by (simp only: mult.commute [of "nat b"])
  qed
  finally show ?thesis using l by simp
qed


lemma SRP_u_Inr:
  assumes "SRP_u SHA1 A B = Inr u"
  shows "0 \<le> u \<and> (\<exists>Ab. bigIntegerToBytes A 128 = Inr Ab) \<and> (\<exists>Bb. bigIntegerToBytes B 128 = Inr Bb)"
  using assms
  by (auto simp: SRP_u_def bigIntegerFromHex_nonneg split: sum.splits)

lemma SRP_x_nonneg: "0 \<le> SRP_x SHA1 s username password"
  by (simp add: SRP_x_def Let_def bigIntegerFromHex_nonneg)

lemma SRP_B_Inr:
  assumes "SRP_B SHA1 N g v b = Inr B"
  shows "\<exists>k. SRP_k SHA1 N g = Inr k \<and> B = (k * v + modPow g b N) mod N"
  using assms by (auto simp: SRP_B_def split: sum.splits)

lemma startLogin_Inr:
  assumes "startLogin SHA1 b srv username = Inr (info, srv1)"
    and "s_lookupFunc srv username = Some ent"
  shows "\<exists>B. SRP_B SHA1 (bytesToBigInteger (e_n ent)) (bytesToBigInteger (e_g ent))
                 (bytesToBigInteger (e_v ent)) b = Inr B \<and>
             info = \<lparr>si_modulus = Some (bytesToBigInteger (e_n ent)),
                     si_generator = Some (bytesToBigInteger (e_g ent)),
                     si_salt = Some (e_s ent), si_serverPublicKey = Some B,
                     si_loginToken = None\<rparr> \<and>
             s_modulus srv1 = Some (bytesToBigInteger (e_n ent)) \<and>
             s_verifier srv1 = Some (bytesToBigInteger (e_v ent)) \<and>
             s_serverPrivateKey srv1 = Some b \<and>
             s_serverPublicKey srv1 = Some B"
  using assms by (auto simp: startLogin_def Let_def split: sum.splits)

lemma generatePublicKeyAndProof_Inr:
  assumes "generatePublicKeyAndProof SHA1 a this = Inr (params, this')"
    and "c_serverPublicKey this = Some B" "c_modulus this = Some N"
    and "c_generator this = Some g" "c_salt this = Some s"
  shows "\<exists>u k K M. B mod N \<noteq> 0 \<and>
           SRP_u SHA1 (SRP_A N g a) B = Inr u \<and> u \<noteq> 0 \<and>
           SRP_k SHA1 N g = Inr k \<and> k \<noteq> 0 \<and>
           SRP_K SHA1 (SRP_Sc N g B k
             (SRP_x SHA1 s (orEmpty (c_username this)) (orEmpty (c_password this))) a u) = Inr K \<and>
           SRP_Mc SHA1 N g (orEmpty (c_username this)) s (SRP_A N g a) B K = Inr M \<and>
           params = \<lparr>clientPublicKey = SRP_A N g a, clientProof = M\<rparr> \<and>
           this' = this\<lparr>c_sharedKey := Some K\<rparr>"
  using assms
  by (auto simp: generatePublicKeyAndProof_def Let_def split: sum.splits if_splits)



text \<open>
  Claim C1. A server looks up the entry of a user and starts a login with the random
  number \<open>b\<close>; a client with the user's name and password takes the server's answer
  and generates its public key and proof with the random number \<open>a\<close>. If the stored
  verifier is \<open>g^x mod N\<close> for the \<open>x\<close> derived from the stored salt, the name and the
  password, and the client's call returns, then the server's \<open>finishLogin\<close> on the
  client's answer returns too, and both have stored the same session key \<open>K\<close>.
\<close>

theorem session_key_agreement:
  assumes N: "1 < bytesToBigInteger (e_n ent)" and a: "0 \<le> a" and b: "0 \<le> b"
    and lookup: "s_lookupFunc srv username = Some ent"
    and verifier: "bytesToBigInteger (e_v ent) =
        SRP_v (bytesToBigInteger (e_n ent)) (bytesToBigInteger (e_g ent))
          (SRP_x SHA1 (e_s ent) username password)"
    and start: "startLogin SHA1 b srv username = Inr (info, srv1)"
    and setinfo: "setServerInfo
        (setIdentity cl \<lparr>i_username = Some username, i_password = Some password\<rparr>) info = Inr cl1"
    and gen: "generatePublicKeyAndProof SHA1 a cl1 = Inr (params, cl2)"
  shows "\<exists>M srv2 K. finishLogin SHA1 srv1 params = Inr (M, srv2) \<and>
           c_sharedKey cl2 = Some K \<and> s_sharedKey srv2 = Some K"
proof -
  define Nv where "Nv = bytesToBigInteger (e_n ent)"
  define g where "g = bytesToBigInteger (e_g ent)"
  define x where "x = SRP_x SHA1 (e_s ent) username password"
  define v where "v = bytesToBigInteger (e_v ent)"
  from startLogin_Inr [OF start lookup] obtain B where
    B: "SRP_B SHA1 Nv g v b = Inr B"
    and info: "info = \<lparr>si_modulus = Some Nv, si_generator = Some g,
                     si_salt = Some (e_s ent), si_serverPublicKey = Some B,
                     si_loginToken = None\<rparr>"
    and srv1: "s_modulus srv1 = Some Nv" "s_verifier srv1 = Some v"
      "s_serverPrivateKey srv1 = Some b" "s_serverPublicKey srv1 = Some B"
    unfolding Nv_def g_def v_def by blast
  from SRP_B_Inr [OF B] obtain k where
    k: "SRP_k SHA1 Nv g = Inr k" and Bv: "B = (k * v + modPow g b Nv) mod Nv"
    by blast
  from setinfo info have cl1:
    "c_serverPublicKey cl1 = Some B" "c_modulus cl1 = Some Nv" "c_generator cl1 = Some g"
    "c_salt cl1 = Some (e_s ent)" "c_username cl1 = Some username" "c_password cl1 = Some password"
    by (auto simp: setServerInfo_def setIdentity_def)
  from generatePublicKeyAndProof_Inr [OF gen cl1(1-4)] cl1(5,6) k obtain u K M where
    u: "SRP_u SHA1 (SRP_A Nv g a) B = Inr u" "u \<noteq> 0"
    and K: "SRP_K SHA1 (SRP_Sc Nv g B k x a u) = Inr K"
    and params: "params = \<lparr>clientPublicKey = SRP_A Nv g a, clientProof = M\<rparr>"
    and cl2: "cl2 = cl1\<lparr>c_sharedKey := Some K\<rparr>"
    by (auto simp: orEmpty_def x_def)
  from SRP_u_Inr [OF u(1)] obtain Ab where
    u0: "0 \<le> u" and Ab: "bigIntegerToBytes (SRP_A Nv g a) 128 = Inr Ab"
    by blast
  have x0: "0 \<le> x" by (simp add: x_def SRP_x_nonneg)
  have vx: "v = SRP_v Nv g x"
    using verifier by (simp add: v_def Nv_def g_def x_def)
  have S: "SRP_Ss Nv (SRP_A Nv g a) v u b = SRP_Sc Nv g B k x a u"
    unfolding Bv vx using shared_secret_agreement [OF a u0 x0 b, of Nv g k] N by (simp add: Nv_def)
  have "finishLogin SHA1 srv1 params =
        Inr (SHA1 (Bytes (Ab @ hashStringToByteArray M @ K)), srv1\<lparr>s_sharedKey := Some K\<rparr>)"
    by (simp add: finishLogin_def Let_def params srv1 u S K SRP_Ms_def Ab)
  with cl2 show ?thesis by simp
qed



subsection \<open>A closed example of the handshake\<close>

text \<open>
  The example runs the group \<open>N = 23\<close>, \<open>g = 5\<close> with the stand-in digest
  \<open>exampleDigest\<close>, so that every exponentiation can be evaluated.
\<close>

lemma replicate_num: "replicate (numeral k) x = x # replicate (pred_numeral k) x"
  by (simp add: numeral_eq_Suc)

lemmas eval_simps =
  bytesToBigInteger_def bigIntegerFromHex_def byteArrayToHashString_def js_and_def js_xor_def
  toInt32_def toString16_def hexDigits.simps hexChar_def substrLast_def substr_def
  digitsValue_def digitValue_def bigIntegerToBytes_def toByteArray.simps int8_def
  hashStringToByteArray_def hashStringToByteArray_loop.simps parseInt_def isWhiteSpace_def
  xorHashStrings_def xorHashStrings_loop.simps uint8_def exampleDigest_def
  SRP_A_def SRP_k_def SRP_B_def SRP_u_def SRP_Sc_def SRP_Ss_def SRP_K_def
  SRP_v_def MGF1SHA1_def modPow_def replicate_num

lemma ex_k: "SRP_k exampleDigest 23 5 = Inr 1"
  by (simp add: eval_simps)

lemma ex_start:
  "startLogin exampleDigest 4 exampleServer ''alice'' =
     Inr (exampleInfo,
          exampleServer\<lparr>s_modulus := Some 23, s_generator := Some 5,
            s_salt := Some [Num 1, Num 2, Num 3], s_serverPrivateKey := Some 4,
            s_serverPublicKey := Some 8, s_verifier := Some 4\<rparr>)"
  unfolding startLogin_def Let_def
  by (simp add: exampleServer_def newServer_def exampleEntry_def exampleInfo_def eval_simps)


lemma ex_setinfo:
  "setServerInfo (setIdentity newClient \<lparr>i_username = Some ''alice'', i_password = Some ''secret''\<rparr>)
     exampleInfo = Inr exampleClient"
  by (simp add: setServerInfo_def setIdentity_def newClient_def exampleInfo_def exampleClient_def)

lemma ex_x: "SRP_x exampleDigest [Num 1, Num 2, Num 3] ''alice'' ''secret'' = 4"
  unfolding SRP_x_def Let_def
  by (simp add: eval_simps)

lemma ex_u: "SRP_u exampleDigest 10 8 = Inr 5"
  by (simp add: eval_simps)

lemma ex_K: "SRP_K exampleDigest 4 = Inr exampleKey"
  by (simp add: eval_simps exampleKey_def)

lemma ex_Mc:
  "SRP_Mc exampleDigest 23 5 ''alice'' [Num 1, Num 2, Num 3] 10 8 exampleKey =
     Inr ''0000000000000000000000000000000000000006''"
  unfolding SRP_Mc_def Let_def
  by (simp add: eval_simps exampleKey_def)

lemma ex_gen:
  "generatePublicKeyAndProof exampleDigest 3 exampleClient =
     Inr (\<lparr>clientPublicKey = 10, clientProof = ''0000000000000000000000000000000000000006''\<rparr>,
          exampleClient\<lparr>c_sharedKey := Some exampleKey\<rparr>)"
proof -
  have A: "SRP_A 23 5 3 = 10" by (simp add: SRP_A_def modPow_def)
  have S: "SRP_Sc 23 5 8 1 4 3 5 = 4" by (simp add: SRP_Sc_def modPow_def)
  show ?thesis
    unfolding generatePublicKeyAndProof_def Let_def
    by (simp add: exampleClient_def orEmpty_def A ex_u ex_k ex_x S ex_K ex_Mc)
qed

theorem session_key_agreement_witness:
  "1 < bytesToBigInteger (e_n exampleEntry) \<and>
   (\<exists>M srv2. finishLogin exampleDigest
        (exampleServer\<lparr>s_modulus := Some 23, s_generator := Some 5,
           s_salt := Some [Num 1, Num 2, Num 3], s_serverPrivateKey := Some 4,
           s_serverPublicKey := Some 8, s_verifier := Some 4\<rparr>)
        \<lparr>clientPublicKey = 10, clientProof = ''0000000000000000000000000000000000000006''\<rparr>
          = Inr (M, srv2) \<and>
      s_sharedKey srv2 = Some exampleKey \<and>
      c_sharedKey (exampleClient\<lparr>c_sharedKey := Some exampleKey\<rparr>) = Some exampleKey)"
proof -
  have N: "1 < bytesToBigInteger (e_n exampleEntry)"
    by (simp add: exampleEntry_def eval_simps)
  have lookup: "s_lookupFunc exampleServer ''alice'' = Some exampleEntry"
    by (simp add: exampleServer_def newServer_def)
  have verifier: "bytesToBigInteger (e_v exampleEntry) =
      SRP_v (bytesToBigInteger (e_n exampleEntry)) (bytesToBigInteger (e_g exampleEntry))
        (SRP_x exampleDigest (e_s exampleEntry) ''alice'' ''secret'')"
    by (simp add: exampleEntry_def ex_x) (simp add: eval_simps)
  have a: "(0::int) \<le> 3" and b: "(0::int) \<le> 4" by simp_all
  from session_key_agreement [OF N a b lookup verifier ex_start ex_setinfo ex_gen]
  obtain M srv2 K where
    "finishLogin exampleDigest
        (exampleServer\<lparr>s_modulus := Some 23, s_generator := Some 5,
           s_salt := Some [Num 1, Num 2, Num 3], s_serverPrivateKey := Some 4,
           s_serverPublicKey := Some 8, s_verifier := Some 4\<rparr>)
        \<lparr>clientPublicKey = 10, clientProof = ''0000000000000000000000000000000000000006''\<rparr>
          = Inr (M, srv2)"
    "c_sharedKey (exampleClient\<lparr>c_sharedKey := Some exampleKey\<rparr>) = Some K"
    "s_sharedKey srv2 = Some K"
    by auto
  with N show ?thesis by auto
qed


section \<open>Client.generatePublicKeyAndProof: the outcomes\<close>

lemma pow_256_128: "(256::int) ^ 128 = 2 ^ 1024"
  by simp

lemma bigIntegerToBytes_in_range:
  assumes "0 \<le> n" "n < 256 ^ w"
  shows "\<exists>bs. bigIntegerToBytes n w = Inr bs"
  using bigIntegerToBytes_fits [OF assms] by blast

lemma bigIntegerToBytes_128:
  assumes "0 \<le> n" "n < 2 ^ 1024"
  shows "\<exists>bs. bigIntegerToBytes n 128 = Inr bs"
  using assms by (intro bigIntegerToBytes_in_range) (simp_all only: pow_256_128)

lemma modPow_range: "0 < N \<Longrightarrow> e \<noteq> 0 \<Longrightarrow> 0 \<le> modPow g e N \<and> modPow g e N < N"
  by (simp add: modPow_def)

lemma modPow_below:
  assumes "0 < N" "N < M"
  shows "0 \<le> modPow g e N" "modPow g e N < M"
proof -
  have "0 \<le> modPow g e N \<and> modPow g e N < M"
  proof (cases "e = 0")
    case True
    with assms show ?thesis by (simp add: modPow_def)
  next
    case False
    with modPow_range [OF assms(1), of e g] assms(2) show ?thesis by linarith
  qed
  then show "0 \<le> modPow g e N" "modPow g e N < M" by simp_all
qed

lemma SRP_u_in_range:
  assumes "0 \<le> A" "A < 2 ^ 1024" "0 \<le> B" "B < 2 ^ 1024"
  shows "\<exists>u. SRP_u SHA1 A B = Inr u"
  using bigIntegerToBytes_128 [OF assms(1,2)] bigIntegerToBytes_128 [OF assms(3,4)]
  by (auto simp: SRP_u_def)

lemma SRP_k_in_range:
  assumes "0 \<le> N" "N < 2 ^ 1024" "0 \<le> g" "g < 2 ^ 1024"
  shows "\<exists>k. SRP_k SHA1 N g = Inr k"
  using bigIntegerToBytes_128 [OF assms(1,2)] bigIntegerToBytes_128 [OF assms(3,4)]
  by (auto simp: SRP_k_def)

lemma SRP_K_in_range:
  assumes "0 \<le> S" "S < 2 ^ 1024"
  shows "\<exists>K. SRP_K SHA1 S = Inr K"
  using bigIntegerToBytes_128 [OF assms]
  by (auto simp: SRP_K_def)

lemma SRP_Mc_in_range:
  assumes "0 \<le> N" "N < 2 ^ 1024" "0 \<le> g" "g < 256"
    and "0 \<le> A" "A < 2 ^ 1024" "0 \<le> B" "B < 2 ^ 1024"
    and "\<forall>inp. length (SHA1 inp) = 40"
  shows "\<exists>M. SRP_Mc SHA1 N g username s A B K = Inr M"
proof -
  from assms(3,4) have "\<exists>gb. bigIntegerToBytes g 1 = Inr gb"
    by (intro bigIntegerToBytes_in_range) simp_all
  then obtain gb where gb: "bigIntegerToBytes g 1 = Inr gb" by blast
  from bigIntegerToBytes_128 [OF assms(1,2)] obtain Nb where Nb: "bigIntegerToBytes N 128 = Inr Nb"
    by blast
  from bigIntegerToBytes_128 [OF assms(5,6)] obtain Ab where Ab: "bigIntegerToBytes A 128 = Inr Ab"
    by blast
  from bigIntegerToBytes_128 [OF assms(7,8)] obtain Bb where Bb: "bigIntegerToBytes B 128 = Inr Bb"
    by blast
  have x: "xorHashStrings (SHA1 (Bytes Nb)) (SHA1 (Bytes gb)) =
      Inr (xorHashStrings_loop (SHA1 (Bytes Nb)) (SHA1 (Bytes gb)) 0 [])"
    using assms(9) by (simp add: xorHashStrings_def)
  show ?thesis
    unfolding SRP_Mc_def Let_def
    using gb Nb Ab Bb x by simp
qed


lemma SRP_errors:
  "SRP_u SHA1 A B = Inl e \<Longrightarrow> \<exists>w. e = Truncation w"
  "SRP_k SHA1 N g = Inl e \<Longrightarrow> \<exists>w. e = Truncation w"
  "SRP_K SHA1 S = Inl e \<Longrightarrow> \<exists>w. e = Truncation w"
  "SRP_Mc SHA1 N g username s A B K = Inl e \<Longrightarrow> e = LengthMismatch \<or> (\<exists>w. e = Truncation w)"
  unfolding SRP_u_def SRP_k_def SRP_K_def SRP_Mc_def Let_def
  by (auto simp: bigIntegerToBytes_def xorHashStrings_def Let_def split: sum.splits if_splits)

lemma SRP_not_precheck:
  "SRP_u SHA1 A B \<noteq> Inl PrecheckFailed"
  "SRP_k SHA1 N g \<noteq> Inl PrecheckFailed"
  "SRP_K SHA1 S \<noteq> Inl PrecheckFailed"
  "SRP_Mc SHA1 N g username s A B K \<noteq> Inl PrecheckFailed"
  using SRP_errors [of SHA1] by fastforce+

lemma generatePublicKeyAndProof_cascade:
  assumes "c_serverPublicKey this = Some B" and "c_modulus this = Some N"
    and "c_generator this = Some g" and "c_salt this = Some s"
  shows "generatePublicKeyAndProof SHA1 a this =
     (if B mod N = 0 then Inl PrecheckFailed
      else case SRP_u SHA1 (SRP_A N g a) B of
        Inl e \<Rightarrow> Inl e
      | Inr u \<Rightarrow>
          if u = 0 then Inl PrecheckFailed
          else case SRP_k SHA1 N g of
            Inl e \<Rightarrow> Inl e
          | Inr k \<Rightarrow>
              if k = 0 then Inl PrecheckFailed
              else case SRP_K SHA1 (SRP_Sc N g B k
                     (SRP_x SHA1 s (orEmpty (c_username this)) (orEmpty (c_password this))) a u) of
                Inl e \<Rightarrow> Inl e
              | Inr K \<Rightarrow>
                  (case SRP_Mc SHA1 N g (orEmpty (c_username this)) s (SRP_A N g a) B K of
                     Inl e \<Rightarrow> Inl e
                   | Inr M \<Rightarrow>
                       Inr (\<lparr>clientPublicKey = SRP_A N g a, clientProof = M\<rparr>,
                            this\<lparr>c_sharedKey := Some K\<rparr>)))"
  unfolding generatePublicKeyAndProof_def Let_def
  by (simp add: assms split: sum.splits)

lemma generatePublicKeyAndProof_in_range:
  assumes f: "c_serverPublicKey this = Some B" "c_modulus this = Some N"
    "c_generator this = Some g" "c_salt this = Some s"
    and h: "0 < N" "N < 2 ^ 1024" "0 \<le> B" "B < 2 ^ 1024" "0 \<le> g" "g < 256"
      "\<forall>inp. length (SHA1 inp) = 40"
  shows "\<exists>u k K M.
     SRP_u SHA1 (SRP_A N g a) B = Inr u \<and> SRP_k SHA1 N g = Inr k \<and>
     generatePublicKeyAndProof SHA1 a this =
       (if u = 0 \<or> k = 0 \<or> B mod N = 0 then Inl PrecheckFailed
        else Inr (\<lparr>clientPublicKey = SRP_A N g a, clientProof = M\<rparr>,
                  this\<lparr>c_sharedKey := Some K\<rparr>))"
proof -
  define A where "A = SRP_A N g a"
  define x where "x = SRP_x SHA1 s (orEmpty (c_username this)) (orEmpty (c_password this))"
  have N0: "0 \<le> N" using h(1) by simp
  have g1024: "g < 2 ^ 1024" using h(6) by simp
  have A: "0 \<le> A" "A < 2 ^ 1024"
    unfolding A_def SRP_A_def by (rule modPow_below [OF h(1,2)])+
  obtain u where u: "SRP_u SHA1 A B = Inr u"
    using SRP_u_in_range [OF A h(3,4)] by blast
  obtain k where k: "SRP_k SHA1 N g = Inr k"
    using SRP_k_in_range [OF N0 h(2,5) g1024] by blast
  have S: "0 \<le> SRP_Sc N g B k x a u" "SRP_Sc N g B k x a u < 2 ^ 1024"
    unfolding SRP_Sc_def by (rule modPow_below [OF h(1,2)])+
  obtain K where K: "SRP_K SHA1 (SRP_Sc N g B k x a u) = Inr K"
    using SRP_K_in_range [OF S] by blast
  obtain M where M: "SRP_Mc SHA1 N g (orEmpty (c_username this)) s A B K = Inr M"
    using SRP_Mc_in_range [OF N0 h(2,5,6) A h(3,4,7)] by blast
  have "generatePublicKeyAndProof SHA1 a this =
       (if u = 0 \<or> k = 0 \<or> B mod N = 0 then Inl PrecheckFailed
        else Inr (\<lparr>clientPublicKey = A, clientProof = M\<rparr>, this\<lparr>c_sharedKey := Some K\<rparr>))"
    using u k K M
    by (simp add: generatePublicKeyAndProof_cascade [OF f] A_def [symmetric] x_def [symmetric])
  with u k show ?thesis unfolding A_def by blast
qed

text \<open>
  Claim C3, as the code has it. On a client whose server information is set:
  \<^item> when \<open>B mod N = 0\<close> the call fails with the precondition failure, whatever the
    digest function and the random number are: nothing else is computed first;
  \<^item> otherwise an error of \<open>u\<close> is the error of the call (\<open>u\<close> comes before \<open>k\<close>), and
    the call fails with the precondition failure exactly when \<open>u\<close> is 0, or \<open>u\<close> is not
    0 and \<open>k\<close> is 0;
  \<^item> the only other errors are those of the fixed-width encodings inside \<open>u\<close>, \<open>k\<close>,
    \<open>K\<close> and \<open>M\<close> (truncation; a length mismatch of two digests);
  \<^item> when the call returns, it returns \<open>A\<close> and \<open>M\<close> and has stored \<open>K\<close>, computed
    from \<open>u\<close>, \<open>k\<close>, \<open>x\<close> and \<open>S\<close> as the source computes them;
  \<^item> when \<open>N\<close> and \<open>B\<close> are below \<open>2^1024\<close>, \<open>g\<close> is below 256 and every digest has
    40 characters, no encoding fails: the call either fails with the precondition failure
    or returns and stores \<open>K\<close>.
\<close>

theorem generatePublicKeyAndProof_outcomes:
  assumes "c_serverPublicKey this = Some B" and "c_modulus this = Some N"
    and "c_generator this = Some g" and "c_salt this = Some s"
  shows
   "(B mod N = 0 \<longrightarrow> generatePublicKeyAndProof SHA1 a this = Inl PrecheckFailed) \<and>
    (B mod N \<noteq> 0 \<longrightarrow>
       (\<forall>e. SRP_u SHA1 (SRP_A N g a) B = Inl e \<longrightarrow>
            generatePublicKeyAndProof SHA1 a this = Inl e) \<and>
       (generatePublicKeyAndProof SHA1 a this = Inl PrecheckFailed \<longleftrightarrow>
          SRP_u SHA1 (SRP_A N g a) B = Inr 0 \<or>
          ((\<exists>u. SRP_u SHA1 (SRP_A N g a) B = Inr u \<and> u \<noteq> 0) \<and> SRP_k SHA1 N g = Inr 0))) \<and>
    (\<forall>e. generatePublicKeyAndProof SHA1 a this = Inl e \<longrightarrow>
          e = PrecheckFailed \<or> e = LengthMismatch \<or> (\<exists>w. e = Truncation w)) \<and>
    (\<forall>params this'. generatePublicKeyAndProof SHA1 a this = Inr (params, this') \<longrightarrow>
       (\<exists>u k K M.
          SRP_u SHA1 (SRP_A N g a) B = Inr u \<and> u \<noteq> 0 \<and>
          SRP_k SHA1 N g = Inr k \<and> k \<noteq> 0 \<and>
          SRP_K SHA1 (SRP_Sc N g B k
            (SRP_x SHA1 s (orEmpty (c_username this)) (orEmpty (c_password this))) a u) = Inr K \<and>
          SRP_Mc SHA1 N g (orEmpty (c_username this)) s (SRP_A N g a) B K = Inr M \<and>
          params = \<lparr>clientPublicKey = SRP_A N g a, clientProof = M\<rparr> \<and>
          this' = this\<lparr>c_sharedKey := Some K\<rparr>)) \<and>
    (0 < N \<and> N < 2 ^ 1024 \<and> 0 \<le> B \<and> B < 2 ^ 1024 \<and> 0 \<le> g \<and> g < 256 \<and>
     (\<forall>inp. length (SHA1 inp) = 40) \<longrightarrow>
       generatePublicKeyAndProof SHA1 a this = Inl PrecheckFailed \<or>
       (\<exists>params K. generatePublicKeyAndProof SHA1 a this =
          Inr (params, this\<lparr>c_sharedKey := Some K\<rparr>)))"
proof -
  note r = generatePublicKeyAndProof_cascade [OF assms, of SHA1 a]
  have c1: "B mod N = 0 \<longrightarrow> generatePublicKeyAndProof SHA1 a this = Inl PrecheckFailed"
    by (simp add: r)
  have c2: "B mod N \<noteq> 0 \<longrightarrow>
       (\<forall>e. SRP_u SHA1 (SRP_A N g a) B = Inl e \<longrightarrow>
            generatePublicKeyAndProof SHA1 a this = Inl e) \<and>
       (generatePublicKeyAndProof SHA1 a this = Inl PrecheckFailed \<longleftrightarrow>
          SRP_u SHA1 (SRP_A N g a) B = Inr 0 \<or>
          ((\<exists>u. SRP_u SHA1 (SRP_A N g a) B = Inr u \<and> u \<noteq> 0) \<and> SRP_k SHA1 N g = Inr 0))"
    by (auto simp: r SRP_not_precheck split: sum.splits)
  have c3: "\<forall>e. generatePublicKeyAndProof SHA1 a this = Inl e \<longrightarrow>
      e = PrecheckFailed \<or> e = LengthMismatch \<or> (\<exists>w. e = Truncation w)"
    by (auto simp: r split: sum.splits if_splits dest: SRP_errors)
  have c4: "\<forall>params this'. generatePublicKeyAndProof SHA1 a this = Inr (params, this') \<longrightarrow>
       (\<exists>u k K M.
          SRP_u SHA1 (SRP_A N g a) B = Inr u \<and> u \<noteq> 0 \<and>
          SRP_k SHA1 N g = Inr k \<and> k \<noteq> 0 \<and>
          SRP_K SHA1 (SRP_Sc N g B k
            (SRP_x SHA1 s (orEmpty (c_username this)) (orEmpty (c_password this))) a u) = Inr K \<and>
          SRP_Mc SHA1 N g (orEmpty (c_username this)) s (SRP_A N g a) B K = Inr M \<and>
          params = \<lparr>clientPublicKey = SRP_A N g a, clientProof = M\<rparr> \<and>
          this' = this\<lparr>c_sharedKey := Some K\<rparr>)"
    using generatePublicKeyAndProof_Inr [OF _ assms, of SHA1 a] by blast
  have c5: "0 < N \<and> N < 2 ^ 1024 \<and> 0 \<le> B \<and> B < 2 ^ 1024 \<and> 0 \<le> g \<and> g < 256 \<and>
     (\<forall>inp. length (SHA1 inp) = 40) \<longrightarrow>
       generatePublicKeyAndProof SHA1 a this = Inl PrecheckFailed \<or>
       (\<exists>params K. generatePublicKeyAndProof SHA1 a this =
          Inr (params, this\<lparr>c_sharedKey := Some K\<rparr>))"
  proof (intro impI, elim conjE)
    assume h: "0 < N" "N < 2 ^ 1024" "0 \<le> B" "B < 2 ^ 1024" "0 \<le> g" "g < 256"
      "\<forall>inp. length (SHA1 inp) = 40"
    from generatePublicKeyAndProof_in_range [OF assms h, of a]
    show "generatePublicKeyAndProof SHA1 a this = Inl PrecheckFailed \<or>
       (\<exists>params K. generatePublicKeyAndProof SHA1 a this =
          Inr (params, this\<lparr>c_sharedKey := Some K\<rparr>))"
      by (metis (full_types))
  qed
  from c1 c2 c3 c4 c5 show ?thesis by blast
qed

theorem generatePublicKeyAndProof_outcomes_witness:
  "generatePublicKeyAndProof exampleDigest 3 (exampleClient\<lparr>c_serverPublicKey := Some 46\<rparr>) =
     Inl PrecheckFailed \<and>
   (\<exists>u k. SRP_u exampleDigest (SRP_A 23 5 3) 8 = Inr u \<and> u \<noteq> 0 \<and>
          SRP_k exampleDigest 23 5 = Inr k \<and> k \<noteq> 0) \<and>
   generatePublicKeyAndProof exampleDigest 3 exampleClient =
     Inr (\<lparr>clientPublicKey = 10, clientProof = ''0000000000000000000000000000000000000006''\<rparr>,
          exampleClient\<lparr>c_sharedKey := Some exampleKey\<rparr>)"
proof -
  have a: "generatePublicKeyAndProof exampleDigest 3 (exampleClient\<lparr>c_serverPublicKey := Some 46\<rparr>) =
      Inl PrecheckFailed"
    using generatePublicKeyAndProof_outcomes
      [of "exampleClient\<lparr>c_serverPublicKey := Some 46\<rparr>" 46 23 5 "[Num 1, Num 2, Num 3]"
        exampleDigest 3]
    by (simp add: exampleClient_def)
  have b: "\<exists>u k. SRP_u exampleDigest (SRP_A 23 5 3) 8 = Inr u \<and> u \<noteq> 0 \<and>
          SRP_k exampleDigest 23 5 = Inr k \<and> k \<noteq> 0"
    using generatePublicKeyAndProof_outcomes
      [of exampleClient 8 23 5 "[Num 1, Num 2, Num 3]" exampleDigest 3] ex_gen
    by (simp add: exampleClient_def) blast
  from a b ex_gen show ?thesis by blast
qed

text \<open>
  The claim as it was stated lists no outcome but the precondition failure and the return.
  A server public key of 1025 bits is not a multiple of \<open>N\<close>, and the call fails with
  the truncation error of the fixed-width encoding of \<open>B\<close> in \<open>u\<close>.
\<close>

theorem generatePublicKeyAndProof_truncation_counterexample:
  "(2 ^ 1024 :: int) mod 23 \<noteq> 0 \<and>
   generatePublicKeyAndProof exampleDigest 3 (exampleClient\<lparr>c_serverPublicKey := Some (2 ^ 1024)\<rparr>) =
     Inl (Truncation 128)"
proof -
  define B :: int where "B = 2 ^ 1024"
  have "B = (2 ^ 11) ^ 93 * 2" by (simp add: B_def)
  also have "\<dots> mod 23 = (((2 ^ 11) mod 23) ^ 93 mod 23 * 2) mod 23"
    by (simp only: power_mod mod_mult_left_eq)
  also have "\<dots> = 2" by simp
  finally have m: "B mod 23 \<noteq> 0" by simp
  have "(256::int) ^ 128 \<le> B" by (simp only: pow_256_128 B_def)
  moreover have "0 \<le> B" by (simp add: B_def)
  ultimately have t: "bigIntegerToBytes B 128 = Inl (Truncation 128)"
    by (intro bigIntegerToBytes_truncation)
  have A: "SRP_A 23 5 3 = 10" by (simp add: SRP_A_def modPow_def)
  have "\<exists>Ab. bigIntegerToBytes 10 128 = Inr Ab"
    by (intro bigIntegerToBytes_128) simp_all
  with t have u: "SRP_u exampleDigest 10 B = Inl (Truncation 128)"
    by (auto simp: SRP_u_def)
  have "generatePublicKeyAndProof exampleDigest 3 (exampleClient\<lparr>c_serverPublicKey := Some B\<rparr>) =
      Inl (Truncation 128)"
    unfolding generatePublicKeyAndProof_def Let_def
    using m by (simp add: exampleClient_def A u)
  with m show ?thesis unfolding B_def by blast
qed


section \<open>index.js: properties\<close>

subsection \<open>The prime groups\<close>

lemma length_primes: "length primes = 5"
  by (simp add: primes_def primes_base64_def)

text \<open>The table of the source, decoded.\<close>

lemma primes_values:
  "primes =
    [
     \<lparr>prime_n = 96825511735133189338849954477595057676197244914395056892750214794440727970971345227999922638657160257093040415444625589054385180803372642555800279133902219522496579053186476366861795912619992995852113656826718800042560476513663822425709645452244729016983281537922598528865723292431440886970098032388516196199,
      prime_g = 11\<rparr>,
     \<lparr>prime_n = 149884747356893456393977793070029037235748856598550626236301585599972398791994896571606371668518012949394351669076702179563018193742854612807714356134436202456864036804924653129161837193231066052592279696699199579928386985161821513559035671689339657610408158389064507855971494355027087576516000959909812465479,
      prime_g = 17\<rparr>,
     \<lparr>prime_n = 95912717681464986644811065854575911906424282249554398859850967953043239384729853536816170245340080493931385178356148316428315976286512807202848592337581321005419291397492440888123403728315448451393269124922288734828581124664787191788657602937285421527722650455151120853174331431407762321012184425545629626567,
      prime_g = 5\<rparr>,
     \<lparr>prime_n = 161282112882723183085347020557282618973814051797622871113042806315715114755224823162890188524719279003659718404483586227070311122648010556061912330519296911693241046054870500242646217520763224048474856321745713020705047516955324592574350949823801337292607008009299700623553332571445340291865296489277038846487,
      prime_g = 5\<rparr>,
     \<lparr>prime_n = 112974138331227281440151018691331814724640645903875419658548122610184376057361341428879605041512614671972369442177221735489460248721219283534262990063464832134316865356747414557200852122835444224442046753200134883589117422910155237880237547866084420626334257907169340985235255217460418149123371619875071867223,
      prime_g = 5\<rparr>
    ]"
  by (simp add: primes_def primes_base64_def b64tohex_def Base64_decode_def b64Value_def
      toString16_def hexDigits.simps hexChar_def substrLast_def bigIntegerFromHex_def
      digitsValue_def digitValue_def)

text \<open>
  The registry is a list of five groups; every modulus is an integer of exactly 1024
  bits; the generators are 11, 17, 5, 5 and 5 in this order (the second is the byte
  \<open>0x11\<close> of the Base64 string \<open>EQ==\<close>).
\<close>

lemma primes_sizes_and_generators:
  "length primes = 5 \<and>
   map prime_g primes = [11, 17, 5, 5, 5] \<and>
   list_all (\<lambda>p. 2 ^ 1023 \<le> prime_n p \<and> prime_n p < 2 ^ 1024) primes"
  by (simp add: primes_values)

lemma prime_group_0:
  "8 < prime_n (primes ! 0)" "prime_n (primes ! 0) < 2 ^ 1024" "prime_g (primes ! 0) = 11"
  by (simp_all add: primes_values)

subsection \<open>Decoding the challenge header\<close>

lemmas header_eval =
  splitParamsString_def indexOf_def substr_def substrFrom_def
  parseInt_def isWhiteSpace_def digitValue_def digitsValue_def

lemma decodeServerParamsString_index:
  assumes "srpParams \<noteq> []" and "splitParamsString srpParams = Inr params"
    and "params ''hasOwnProperty'' = None"
    and "params ''N'' = Some pN" and "params ''s'' = Some ps"
    and "params ''B'' = Some pB" and "params ''ss'' = Some pss"
    and "parseInt pN 10 = Num n"
  shows "decodeServerParamsString (Some srpParams) =
     (if 5 < n then Inl IndexError
      else if 0 \<le> n \<and> n < 5
      then Inr \<lparr>si_modulus = Some (prime_n (primes ! nat n)),
                si_generator = Some (prime_g (primes ! nat n)),
                si_salt = Some (Base64_decode ps),
                si_serverPublicKey = Some (bigIntegerFromHex (b64tohex pB)),
                si_loginToken = Some pss\<rparr>
      else Inl TypeError)"
  using assms
  by (simp add: decodeServerParamsString_def Let_def js_greater_def primesAt_def length_primes)

text \<open>
  Claim C4 on the code. The guard of the source is \<open>params.N > primes.length\<close>. The index
  5, which is the length of the table, passes the guard, and so does a negative index;
  the lookup then gives \<open>undefined\<close> and reading its field \<open>n\<close> fails in the runtime with
  a TypeError, not with the error \<open>'invalid prime index'\<close>. Only an index above 5 meets
  the guard.
\<close>

theorem decodeServerParamsString_index_5:
  "decodeServerParamsString (Some ''N=5,s=AQID,B=CA==,ss=tok'') = Inl TypeError \<and>
   decodeServerParamsString (Some ''N=-1,s=AQID,B=CA==,ss=tok'') = Inl TypeError \<and>
   decodeServerParamsString (Some ''N=6,s=AQID,B=CA==,ss=tok'') = Inl IndexError"
  unfolding decodeServerParamsString_def Let_def
  by (simp add: header_eval js_greater_def primesAt_def length_primes)

lemma decode_salt: "Base64_decode ''AQID'' = [Num 1, Num 2, Num 3]"
  by (simp add: Base64_decode_def b64Value_def)

lemma decode_B: "bigIntegerFromHex (b64tohex ''CA=='') = 8"
  by (simp add: b64tohex_def Base64_decode_def b64Value_def toString16_def hexDigits.simps
      hexChar_def substrLast_def bigIntegerFromHex_def digitsValue_def digitValue_def)

lemma decodeServerParamsString_group_0:
  "decodeServerParamsString (Some ''N=0,s=AQID,B=CA==,ss=tok'') =
     Inr \<lparr>si_modulus = Some (prime_n (primes ! 0)), si_generator = Some (prime_g (primes ! 0)),
          si_salt = Some [Num 1, Num 2, Num 3], si_serverPublicKey = Some 8,
          si_loginToken = Some ''tok''\<rparr>"
  unfolding decodeServerParamsString_def Let_def
  by (simp add: header_eval js_greater_def primesAt_def length_primes decode_salt decode_B)

subsection \<open>logout\<close>

text \<open>
  \<open>logout\<close> without a session cookie, and \<open>logout\<close> whose request is answered with
  status 200, resolve to \<open>true\<close> and set the logged-in user name to the empty string; with
  a session cookie and any other status it resolves to \<open>false\<close> and changes nothing. The
  only variable it ever assigns is \<open>_loggedInUser\<close>.
\<close>

lemma logout_outcomes:
  "logout fetch cookie st =
     (if hasSessionCookie cookie \<and>
         status (fetch \<lparr>url = ''/Logout'', httpMethod = ''GET'', body = None\<rparr>) \<noteq> 200
      then (Resolved JFalse, st)
      else (Resolved JTrue, st\<lparr>underscore_loggedInUser := []\<rparr>))"
  by (simp add: logout_def)

lemma login_with_session:
  "login constantDigest rebootDocument sessionTransport 3 initialState ''alice'' ''secret'' =
     (Resolved JTrue, exampleLoggedIn)"
proof -
  have n: "getUserNameFromLoggedInString ''Logged in as: alice'' = Inr ''alice''"
    by (simp add: getUserNameFromLoggedInString_def)
  have i: "parseIntAuto ''3'' = Num 3"
    unfolding parseIntAuto_def Let_def
    by (simp add: parseInt_def isWhiteSpace_def digitValue_def digitsValue_def)
  have p: "parsePermissions (rebootDocument []) =
      Inr [''Reboot'' \<mapsto> \<lparr>p_name = ''Reboot'', p_builtin = True, p_id = Num 3\<rparr>]"
    by (simp add: parsePermissions_def rebootDocument_def Permission_def i)
  show ?thesis
    unfolding login_def Let_def
    by (simp add: login_onInitialResponse_def login_onSecondResponse_def sessionTransport_def
        permissionsRequest_def n p initialState_def exampleLoggedIn_def)
qed

text \<open>
  Claim C7 on the code. The claim has \<open>logout\<close> clear the logged-in user name and the
  cached permission set. A login of \<open>alice\<close> caches the permission \<open>Reboot\<close>. After a
  \<open>logout\<close> that the server answers with status 200, and after a \<open>logout\<close> without a
  session cookie, nobody is logged in, and the permission set of \<open>alice\<close> is still cached:
  \<open>hasPermission\<close>, which answers for the currently logged-in user, still answers
  \<open>true\<close> for \<open>Reboot\<close>.
\<close>

theorem logout_keeps_cached_permissions:
  "login constantDigest rebootDocument sessionTransport 3 initialState ''alice'' ''secret'' =
     (Resolved JTrue, exampleLoggedIn) \<and>
   fst (logout sessionTransport ''_appwebSessionId_=1'' exampleLoggedIn) = Resolved JTrue \<and>
   getUserName (snd (logout sessionTransport ''_appwebSessionId_=1'' exampleLoggedIn)) = [] \<and>
   cachedPermissions (snd (logout sessionTransport ''_appwebSessionId_=1'' exampleLoggedIn)) =
     cachedPermissions exampleLoggedIn \<and>
   hasPermission (snd (logout sessionTransport ''_appwebSessionId_=1'' exampleLoggedIn)) ''Reboot'' =
     Inr True \<and>
   fst (logout sessionTransport [] exampleLoggedIn) = Resolved JTrue \<and>
   getUserName (snd (logout sessionTransport [] exampleLoggedIn)) = [] \<and>
   hasPermission (snd (logout sessionTransport [] exampleLoggedIn)) ''Reboot'' = Inr True"
proof -
  have a: "logout sessionTransport ''_appwebSessionId_=1'' exampleLoggedIn =
      (Resolved JTrue, exampleLoggedIn\<lparr>underscore_loggedInUser := []\<rparr>)"
    by (simp add: logout_outcomes sessionTransport_def)
  have b: "logout sessionTransport [] exampleLoggedIn =
      (Resolved JTrue, exampleLoggedIn\<lparr>underscore_loggedInUser := []\<rparr>)"
    by (simp add: logout_outcomes hasSessionCookie_def)
  have h: "hasPermission (exampleLoggedIn\<lparr>underscore_loggedInUser := []\<rparr>) ''Reboot'' = Inr True"
    by (simp add: hasPermission_def exampleLoggedIn_def)
  from login_with_session a b h show ?thesis
    by (simp add: getUserName_def)
qed

subsection \<open>login: the response to the proof\<close>

lemma login_onSecondResponse_cases:
  "login_onSecondResponse parseXML st username resp =
     (if status resp = 200 then
        (case parsePermissions (parseXML (responseText resp)) of
           Inl e \<Rightarrow> (Rejected e, st\<lparr>underscore_loggedInUser := username\<rparr>)
         | Inr perms \<Rightarrow>
             (Resolved JTrue,
              st\<lparr>underscore_loggedInUser := username, cachedPermissions := Some perms\<rparr>))
      else if status resp = 403 then (Rejected AuthenticationFailed, st)
      else (Resolved JUndefined, st))"
  by (simp add: login_onSecondResponse_def)

lemma constantDigest_length: "\<forall>inp. length (constantDigest inp) = 40"
  by (simp add: constantDigest_def)

lemma constantDigest_value: "bigIntegerFromHex (constantDigest inp) = 1"
  by (simp add: constantDigest_def bigIntegerFromHex_def digitsValue_def digitValue_def)

lemma SRP_constantDigest:
  "SRP_u constantDigest A B = Inr u \<Longrightarrow> u = 1"
  "SRP_k constantDigest N g = Inr k \<Longrightarrow> k = 1"
  by (auto simp: SRP_u_def SRP_k_def constantDigest_value split: sum.splits)

lemma bigIntToBase64_128:
  assumes "0 \<le> A" "A < 2 ^ 1024"
  shows "\<exists>a64. bigIntToBase64 A 128 = Inr a64"
  using bigIntegerToBytes_128 [OF assms] by (auto simp: bigIntToBase64_def)

lemma example_challenge:
  defines "c1 \<equiv> \<lparr>c_username = Some ''alice'', c_password = Some ''secret'',
      c_modulus = Some (prime_n (primes ! 0)), c_generator = Some (prime_g (primes ! 0)),
      c_salt = Some [Num 1, Num 2, Num 3], c_serverPublicKey = Some 8, c_sharedKey = None\<rparr>"
  shows "\<exists>M K. generatePublicKeyAndProof constantDigest 3 c1 =
     Inr (\<lparr>clientPublicKey = SRP_A (prime_n (primes ! 0)) (prime_g (primes ! 0)) 3, clientProof = M\<rparr>,
          c1\<lparr>c_sharedKey := Some K\<rparr>)"
proof -
  have N: "0 < prime_n (primes ! 0)" using prime_group_0(1) by simp
  have g: "0 \<le> prime_g (primes ! 0)" "prime_g (primes ! 0) < 256"
    by (simp_all add: prime_group_0(3))
  have m: "8 mod prime_n (primes ! 0) \<noteq> 0"
    using prime_group_0(1) by simp
  from generatePublicKeyAndProof_in_range
    [of c1 8 "prime_n (primes ! 0)" "prime_g (primes ! 0)" "[Num 1, Num 2, Num 3]" constantDigest 3,
     OF _ _ _ _ N prime_group_0(2) _ _ g constantDigest_length]
  obtain u k K M where
    u: "SRP_u constantDigest (SRP_A (prime_n (primes ! 0)) (prime_g (primes ! 0)) 3) 8 = Inr u" and
    k: "SRP_k constantDigest (prime_n (primes ! 0)) (prime_g (primes ! 0)) = Inr k" and
    r: "generatePublicKeyAndProof constantDigest 3 c1 =
       (if u = 0 \<or> k = 0 \<or> 8 mod prime_n (primes ! 0) = 0 then Inl PrecheckFailed
        else Inr (\<lparr>clientPublicKey = SRP_A (prime_n (primes ! 0)) (prime_g (primes ! 0)) 3,
                    clientProof = M\<rparr>, c1\<lparr>c_sharedKey := Some K\<rparr>))"
    by (auto simp: c1_def)
  have "u = 1" "k = 1"
    using SRP_constantDigest(1) [OF u] SRP_constantDigest(2) [OF k] by simp_all
  with r m show ?thesis by auto
qed


text \<open>
  Claim C6 on the code. The handler of the response to the proof request has a branch
  for status 200 and a branch for status 403 and no other: for any other status it
  returns nothing, so the promise of \<open>login\<close> resolves (to \<open>undefined\<close>) and no error is
  raised. In the run below the server answers the initial request with a challenge and
  the proof with status 500: \<open>login\<close> resolves, nobody is logged in, nothing is cached.
\<close>

theorem login_proof_response_unknown_status:
  "fst (login constantDigest exampleDocument exampleTransport 3 initialState ''alice'' ''secret'') =
     Resolved JUndefined \<and>
   cachedPermissions
     (snd (login constantDigest exampleDocument exampleTransport 3 initialState ''alice'' ''secret'')) =
     None \<and>
   underscore_loggedInUser
     (snd (login constantDigest exampleDocument exampleTransport 3 initialState ''alice'' ''secret'')) =
     []"
proof -
  define c1 where "c1 = \<lparr>c_username = Some ''alice'', c_password = Some ''secret'',
      c_modulus = Some (prime_n (primes ! 0)), c_generator = Some (prime_g (primes ! 0)),
      c_salt = Some [Num 1, Num 2, Num 3], c_serverPublicKey = Some 8, c_sharedKey = None\<rparr>"
  define A where "A = SRP_A (prime_n (primes ! 0)) (prime_g (primes ! 0)) 3"
  define st1 where "st1 = initialState\<lparr>srpClient := setIdentity (srpClient initialState)
      \<lparr>i_username = Some ''alice'', i_password = Some ''secret''\<rparr>\<rparr>"
  obtain M K where gen: "generatePublicKeyAndProof constantDigest 3 c1 =
      Inr (\<lparr>clientPublicKey = A, clientProof = M\<rparr>, c1\<lparr>c_sharedKey := Some K\<rparr>)"
    using example_challenge unfolding c1_def A_def by blast
  have "0 < prime_n (primes ! 0)" using prime_group_0(1) by simp
  then have "0 \<le> A" "A < 2 ^ 1024"
    unfolding A_def SRP_A_def by (rule modPow_below [OF _ prime_group_0(2)])+
  then obtain a64 where a64: "bigIntToBase64 A 128 = Inr a64"
    using bigIntToBase64_128 by blast
  have setinfo: "setServerInfo (srpClient st1)
      \<lparr>si_modulus = Some (prime_n (primes ! 0)), si_generator = Some (prime_g (primes ! 0)),
        si_salt = Some [Num 1, Num 2, Num 3], si_serverPublicKey = Some 8,
        si_loginToken = Some ''tok''\<rparr> = Inr c1"
    by (simp add: setServerInfo_def st1_def initialState_def setIdentity_def newClient_def c1_def)
  have first: "login_onInitialResponse constantDigest exampleTransport 3 st1 ''alice''
      \<lparr>status = 403, responseText = [], authParams = Some ''N=0,s=AQID,B=CA==,ss=tok''\<rparr> =
      (Inr \<lparr>status = 500, responseText = [], authParams = None\<rparr>,
       st1\<lparr>srpClient := c1\<lparr>c_sharedKey := Some K\<rparr>\<rparr>)"
    by (simp add: login_onInitialResponse_def decodeServerParamsString_group_0 setinfo gen a64
        exampleTransport_def)
  have "login constantDigest exampleDocument exampleTransport 3 initialState ''alice'' ''secret'' =
      (Resolved JUndefined, st1\<lparr>srpClient := c1\<lparr>c_sharedKey := Some K\<rparr>\<rparr>)"
    unfolding login_def Let_def st1_def [symmetric]
    by (simp add: exampleTransport_def first login_onSecondResponse_def)
  then show ?thesis
    by (simp add: st1_def initialState_def)
qed

end
